theory Spec2Isabelle
  imports Complex_Main
begin

section \<open>Cards and hands\<close>

text \<open>
  A card is the JavaScript object \<^verbatim>\<open>{rank, value, suit?}\<close>. The field \<^verbatim>\<open>value\<close> is
  called \<open>cval\<close> here. Card values are integers (\<^verbatim>\<open>createDeck\<close> gives an Ace 11,
  a face card 10 and a number card its face value); money (bankroll, bets, payouts) is rational, since a blackjack
  pays \<^verbatim>\<open>bet * 2.5\<close>. A hand is the array of its cards in deal order.
\<close>

record card =
  rank :: string
  cval :: int
  suit :: "string option"

type_synonym hand = "card list"

abbreviation C :: "string \<Rightarrow> int \<Rightarrow> card" where
  "C r v \<equiv> \<lparr>rank = r, cval = v, suit = None\<rparr>"

section \<open>Hand value model\<close>

text \<open>
  Both \<^verbatim>\<open>calcValue\<close> (blackjackLogic.js) and \<^verbatim>\<open>calculateHandValue\<close> (App.jsx) run
  the same two loops: the first sums the card values and counts the Aces, the second
  takes 10 off while the total is above 21 and an Ace is left to demote.
  \<open>tally\<close> is the first loop with its two accumulators, \<open>demote\<close> the second; it
  returns the number of Aces still counted as 11 beside the total.
\<close>

fun tally :: "hand \<Rightarrow> int \<Rightarrow> nat \<Rightarrow> int \<times> nat" where
  "tally [] v a = (v, a)"
| "tally (c # cs) v a = tally cs (v + cval c) (if rank c = ''A'' then a + 1 else a)"

function demote :: "int \<Rightarrow> nat \<Rightarrow> int \<times> nat" where
  "demote v a = (if v > 21 \<and> a > 0 then demote (v - 10) (a - 1) else (v, a))"
  by pat_completeness auto
termination
  by (relation "measure (\<lambda>(v, a). a)") auto

definition calcValue :: "hand \<Rightarrow> int" where
  "calcValue h = (case tally h 0 0 of (v, a) \<Rightarrow> fst (demote v a))"

text \<open>
  \<^verbatim>\<open>calculateHandValue\<close> ends with a check that returns 0 when the total is NaN;
  an integer total is never NaN, so that branch has no counterpart here.
\<close>

definition calculateHandValue :: "hand \<Rightarrow> int" where
  "calculateHandValue h = (case tally h 0 0 of (v, a) \<Rightarrow> fst (demote v a))"

text \<open>The number of Aces that the reduction loop leaves counted as 11.\<close>

definition acesAtEleven :: "hand \<Rightarrow> nat" where
  "acesAtEleven h = (case tally h 0 0 of (v, a) \<Rightarrow> snd (demote v a))"

text \<open>
  \<^verbatim>\<open>isSoft\<close> of blackjackLogic.js: Aces are counted as 1 in \<open>base\<close>, and the hand
  is soft when one of them can be raised to 11.
\<close>

fun softTally :: "hand \<Rightarrow> int \<Rightarrow> nat \<Rightarrow> int \<times> nat" where
  "softTally [] base a = (base, a)"
| "softTally (c # cs) base a =
     (if rank c = ''A'' then softTally cs (base + 1) (a + 1)
      else softTally cs (base + cval c) a)"

definition isSoft :: "hand \<Rightarrow> bool" where
  "isSoft h = (case softTally h 0 0 of (base, a) \<Rightarrow> a > 0 \<and> base + 10 \<le> 21)"

text \<open>
  \<^verbatim>\<open>isSoftHand\<close> of App.jsx: the loop sums the nominal values and remembers whether
  an Ace was seen; the result also asks \<^verbatim>\<open>hand.some(card => card.rank === 'A')\<close>.
\<close>

fun aceTally :: "hand \<Rightarrow> int \<Rightarrow> bool \<Rightarrow> int \<times> bool" where
  "aceTally [] v hasAce = (v, hasAce)"
| "aceTally (c # cs) v hasAce = aceTally cs (v + cval c) (if rank c = ''A'' then True else hasAce)"

definition isSoftHand :: "hand \<Rightarrow> bool" where
  "isSoftHand h =
     (case aceTally h 0 False of
        (v, hasAce) \<Rightarrow> hasAce \<and> v \<le> 21 \<and> list_ex (\<lambda>c. rank c = ''A'') h)"

text \<open>\<^verbatim>\<open>canSplit\<close> (App.jsx, line 202) and \<^verbatim>\<open>isBlackjack\<close> (blackjackLogic.js, line 66).\<close>

definition canSplit :: "hand \<Rightarrow> bool" where
  "canSplit h = (case h of [c0, c1] \<Rightarrow> rank c0 = rank c1 | _ \<Rightarrow> False)"

definition isBlackjack :: "hand \<Rightarrow> bool" where
  "isBlackjack h \<longleftrightarrow> length h = 2 \<and> calcValue h = 21"

section \<open>Round resolution (blackjackLogic.js)\<close>

datatype result_kind = Win | Loss | Push | Blackjack | Bust | Surrender

text \<open>
  An outcome object, the destructured argument of \<^verbatim>\<open>resolveBlackjackRound\<close> and the
  object it returns, whose \<^verbatim>\<open>bankroll\<close> is the field \<open>rBankroll\<close>. A caller that
  leaves out \<^verbatim>\<open>handBets\<close>, \<^verbatim>\<open>defaultBet\<close> or a flag gets the defaults \<^verbatim>\<open>[]\<close>,
  25 and true; here every field is given.
\<close>

record outcome =
  result :: result_kind
  bet :: rat
  playerValue :: int

record params =
  playerHands :: "hand list"
  dealerHand :: hand
  bankroll :: rat
  handBets :: "rat list"
  defaultBet :: rat
  dealerHitsSoft17 :: bool
  considerNaturalBlackjack :: bool

record round_result =
  rBankroll :: rat
  outcomes :: "outcome list"
  dealerFinalHand :: hand
  dealerValue :: int

text \<open>\<^verbatim>\<open>handBets[i] ?? defaultBet\<close>: an index past the end of the array reads undefined.\<close>

definition betAt :: "rat list \<Rightarrow> nat \<Rightarrow> rat \<Rightarrow> rat" where
  "betAt bets i dflt = (if i < length bets then bets ! i else dflt)"

text \<open>
  The dealer loop (lines 78 to 89). \<open>dealerIdx\<close> is the next card of \<open>dealerHand\<close>
  to reveal, \<open>dealerShown\<close> the hand drawn so far and \<open>dVal\<close> the total the
  condition tests. The loop leaves by its condition or by the \<^verbatim>\<open>break\<close> when no
  card is left.
\<close>

function dealerLoop :: "hand \<Rightarrow> bool \<Rightarrow> nat \<Rightarrow> hand \<Rightarrow> int \<Rightarrow> hand \<times> int" where
  "dealerLoop dHand h17 dealerIdx dealerShown dVal =
     (if dVal < 17 \<or> (dVal = 17 \<and> h17 \<and> isSoft dealerShown) then
        (if dealerIdx \<ge> length dHand then (dealerShown, dVal)
         else dealerLoop dHand h17 (dealerIdx + 1) (dealerShown @ [dHand ! dealerIdx])
                (calcValue (dealerShown @ [dHand ! dealerIdx])))
      else (dealerShown, dVal))"
  by pat_completeness auto
termination
  by (relation "measure (\<lambda>(dHand, h17, dealerIdx, dealerShown, dVal). length dHand - dealerIdx)") auto

text \<open>
  Lines 74 to 76 initialise the loop: \<open>dealerShown\<close> is the first two cards, while
  \<open>dVal\<close> starts as the total of the whole \<open>dealerHand\<close> array.
\<close>

definition dealerDraw :: "hand \<Rightarrow> bool \<Rightarrow> hand \<times> int" where
  "dealerDraw dHand h17 =
     dealerLoop dHand h17 2 (take (min 2 (length dHand)) dHand) (calcValue dHand)"

text \<open>The condition of the dealer loop (lines 79 and 80) as a predicate of its own.\<close>

definition dealerHits :: "bool \<Rightarrow> hand \<Rightarrow> int \<Rightarrow> bool" where
  "dealerHits h17 shown dVal \<longleftrightarrow> dVal < 17 \<or> (dVal = 17 \<and> h17 \<and> isSoft shown)"

text \<open>
  The settlement loop (lines 137 to 162) over the hand index, carrying the outcomes
  pushed so far and \<open>totalPayout\<close>.
\<close>

function settleLoop :: "hand list \<Rightarrow> rat list \<Rightarrow> rat \<Rightarrow> int \<Rightarrow> nat \<Rightarrow> outcome list \<Rightarrow> rat
    \<Rightarrow> outcome list \<times> rat" where
  "settleLoop hands bets dflt dVal i outs totalPayout =
     (if i < length hands then
        (let h = hands ! i; b = betAt bets i dflt; pVal = calcValue h in
         if pVal > 21 then
           settleLoop hands bets dflt dVal (i + 1)
             (outs @ [\<lparr>result = Bust, bet = b, playerValue = pVal\<rparr>]) totalPayout
         else if dVal > 21 then
           settleLoop hands bets dflt dVal (i + 1)
             (outs @ [\<lparr>result = Win, bet = b, playerValue = pVal\<rparr>]) (totalPayout + b * 2)
         else if pVal > dVal then
           settleLoop hands bets dflt dVal (i + 1)
             (outs @ [\<lparr>result = Win, bet = b, playerValue = pVal\<rparr>]) (totalPayout + b * 2)
         else if pVal < dVal then
           settleLoop hands bets dflt dVal (i + 1)
             (outs @ [\<lparr>result = Loss, bet = b, playerValue = pVal\<rparr>]) totalPayout
         else
           settleLoop hands bets dflt dVal (i + 1)
             (outs @ [\<lparr>result = Push, bet = b, playerValue = pVal\<rparr>]) (totalPayout + b))
      else (outs, totalPayout))"
  by pat_completeness auto
termination
  by (relation "measure (\<lambda>(hands, bets, dflt, dVal, i, outs, totalPayout). length hands - i)") auto

text \<open>Lines 137 to 169: normal resolution, entered with the outcomes list still empty.\<close>

definition normalResolution :: "params \<Rightarrow> hand \<Rightarrow> int \<Rightarrow> round_result" where
  "normalResolution p dealerShown dVal =
     (case settleLoop (playerHands p) (handBets p) (defaultBet p) dVal 0 [] 0 of
        (outs, totalPayout) \<Rightarrow>
          \<lparr>rBankroll = max 0 (bankroll p + totalPayout), outcomes = outs,
           dealerFinalHand = dealerShown, dealerValue = dVal\<rparr>)"

text \<open>
  \<open>treatAsInitial\<close> (lines 104 to 106): \<^verbatim>\<open>playerHands[0]\<close> is read only when the
  array has exactly one hand.
\<close>

definition treatAsInitial :: "params \<Rightarrow> bool" where
  "treatAsInitial p \<longleftrightarrow>
     considerNaturalBlackjack p \<and> (case playerHands p of [h] \<Rightarrow> length h = 2 | _ \<Rightarrow> False)"

definition resolveBlackjackRound :: "params \<Rightarrow> round_result" where
  "resolveBlackjackRound p =
     (case dealerDraw (dealerHand p) (dealerHitsSoft17 p) of
        (dealerShown, dVal) \<Rightarrow>
          (let dealerNatural = (considerNaturalBlackjack p \<and> isBlackjack dealerShown) in
           if treatAsInitial p then
             (let bet0 = betAt (handBets p) 0 (defaultBet p);
                  playerNatural = isBlackjack (hd (playerHands p)) in
              if playerNatural \<and> dealerNatural then
                \<lparr>rBankroll = max 0 (bankroll p + bet0),
                 outcomes = [\<lparr>result = Push, bet = bet0, playerValue = 21\<rparr>],
                 dealerFinalHand = dealerHand p, dealerValue = dVal\<rparr>
              else if playerNatural \<and> \<not> dealerNatural then
                \<lparr>rBankroll = max 0 (bankroll p + bet0 * 2.5),
                 outcomes = [\<lparr>result = Blackjack, bet = bet0, playerValue = 21\<rparr>],
                 dealerFinalHand = dealerHand p, dealerValue = dVal\<rparr>
              else normalResolution p dealerShown dVal)
           else normalResolution p dealerShown dVal))"

section \<open>Settlement as the specification words it\<close>

text \<open>
  The per-hand settlement rule in the specification's words: the outcome of one hand
  with total \<open>pv\<close> and bet \<open>b\<close> against the dealer total \<open>dv\<close>, with its payout.
  It is compared below with what \<open>settleLoop\<close> computes.
\<close>

definition settleSpec :: "int \<Rightarrow> int \<Rightarrow> rat \<Rightarrow> result_kind \<times> rat" where
  "settleSpec pv dv b =
     (if pv > 21 then (Bust, 0)
      else if dv > 21 then (Win, 2 * b)
      else if pv > dv then (Win, 2 * b)
      else if pv < dv then (Loss, 0)
      else (Push, 1 * b))"

text \<open>The payout that an outcome stands for: what the round adds to the bankroll for it.\<close>

definition payoutOf :: "outcome \<Rightarrow> rat" where
  "payoutOf oc =
     (case result oc of Win \<Rightarrow> 2 * bet oc | Push \<Rightarrow> bet oc | Blackjack \<Rightarrow> bet oc * 2.5 | _ \<Rightarrow> 0)"

text \<open>The outcome and the payout that the rule gives hand \<open>i\<close> of a call.\<close>

definition settledHand :: "params \<Rightarrow> int \<Rightarrow> nat \<Rightarrow> outcome" where
  "settledHand p dv i =
     \<lparr>result = fst (settleSpec (calcValue (playerHands p ! i)) dv (betAt (handBets p) i (defaultBet p))),
      bet = betAt (handBets p) i (defaultBet p),
      playerValue = calcValue (playerHands p ! i)\<rparr>"

definition handPayout :: "params \<Rightarrow> int \<Rightarrow> nat \<Rightarrow> rat" where
  "handPayout p dv i =
     snd (settleSpec (calcValue (playerHands p ! i)) dv (betAt (handBets p) i (defaultBet p)))"

text \<open>
  A call reaches normal settlement unless it leaves by one of the two early returns,
  which both need \<open>treatAsInitial\<close> and a player natural (lines 108 to 132).
\<close>

definition reachesNormal :: "params \<Rightarrow> bool" where
  "reachesNormal p \<longleftrightarrow> \<not> (treatAsInitial p \<and> isBlackjack (hd (playerHands p)))"

section \<open>Sample rounds\<close>

text \<open>
  Four hands against a dealer 18: a win, a push, a loss and a bust, the last two on the
  default bet.
\<close>

definition fourHands :: params where
  "fourHands = \<lparr>playerHands = [[C ''10'' 10, C ''K'' 10], [C ''10'' 10, C ''8'' 8],
                                  [C ''9'' 9, C ''8'' 8], [C ''4'' 4, C ''Q'' 10, C ''K'' 10]],
     dealerHand = [C ''J'' 10, C ''8'' 8], bankroll = 1000, handBets = [25, 50], defaultBet = 10,
     dealerHitsSoft17 = True, considerNaturalBlackjack = True\<rparr>"

section \<open>Softness as the specification words it\<close>

text \<open>
  The number of Aces of a hand and its nominal total, every Ace at 11. In the
  specification's words a hand is soft when it holds an Ace and the nominal total,
  reduced by 10 for each Ace except one, is at most 21.
\<close>

definition isAce :: "card \<Rightarrow> bool" where
  "isAce c \<longleftrightarrow> rank c = ''A''"

definition aceCount :: "hand \<Rightarrow> nat" where
  "aceCount h = length (filter isAce h)"

definition nominalTotal :: "hand \<Rightarrow> int" where
  "nominalTotal h = sum_list (map cval h)"

definition softSpec :: "hand \<Rightarrow> bool" where
  "softSpec h \<longleftrightarrow> aceCount h \<ge> 1 \<and> nominalTotal h - 10 * (int (aceCount h) - 1) \<le> 21"

section \<open>Strategy engine (App.jsx)\<close>

datatype action = Hit | Stand | Double | Split | Surrender

text \<open>
  The test \<^verbatim>\<open>playerHand.length === 2 && playerHand[0].rank === playerHand[1].rank\<close> of
  \<^verbatim>\<open>getOptimalAction\<close> (line 221) and of \<^verbatim>\<open>recordDecision\<close> (line 662).
\<close>

definition isPair :: "hand \<Rightarrow> bool" where
  "isPair h = (case h of [c0, c1] \<Rightarrow> rank c0 = rank c1 | _ \<Rightarrow> False)"

text \<open>
  The pair block (lines 225 to 239) for a pair of rank \<open>r\<close>: it returns split or
  falls through to the rules on totals, which is \<open>None\<close> here.
\<close>

definition pairStrategy :: "string \<Rightarrow> int \<Rightarrow> action option" where
  "pairStrategy r dealerVal =
     (if r = ''A'' \<or> r = ''8'' then Some Split
      else if r = ''9'' \<and> dealerVal \<notin> set [7, 10, 11] then Some Split
      else if r = ''7'' \<and> dealerVal \<le> 7 then Some Split
      else if r = ''6'' \<and> dealerVal \<le> 6 then Some Split
      else if r \<in> set [''2'', ''3''] \<and> dealerVal \<le> 7 then Some Split
      else if r = ''4'' \<and> dealerVal \<in> set [5, 6] then Some Split
      else None)"

text \<open>The soft block (lines 243 to 260).\<close>

definition softStrategy :: "int \<Rightarrow> int \<Rightarrow> bool \<Rightarrow> action" where
  "softStrategy playerVal dealerVal canDouble =
     (if playerVal \<ge> 19 then Stand
      else if playerVal = 18 then
        (if canDouble \<and> dealerVal \<in> set [3, 4, 5, 6] then Double
         else if dealerVal \<ge> 9 then Hit
         else Stand)
      else if playerVal \<ge> 17 \<and> canDouble \<and> dealerVal \<in> set [3, 4, 5, 6] then Double
      else if playerVal \<ge> 15 \<and> canDouble \<and> dealerVal \<in> set [4, 5, 6] then Double
      else if playerVal \<ge> 13 \<and> canDouble \<and> dealerVal \<in> set [5, 6] then Double
      else Hit)"

text \<open>The hard block (lines 266 to 291); \<open>n\<close> is the number of cards of the hand.\<close>

definition hardStrategy :: "int \<Rightarrow> int \<Rightarrow> nat \<Rightarrow> bool \<Rightarrow> bool \<Rightarrow> action" where
  "hardStrategy playerVal dealerVal n canDouble canSurrender =
     (if playerVal \<ge> 17 then Stand
      else if playerVal \<ge> 13 \<and> dealerVal \<le> 6 then Stand
      else if playerVal = 12 \<and> dealerVal \<in> set [4, 5, 6] then Stand
      else if playerVal = 11 \<and> canDouble then Double
      else if playerVal = 10 \<and> canDouble \<and> dealerVal \<le> 9 then Double
      else if playerVal = 9 \<and> canDouble \<and> dealerVal \<in> set [3, 4, 5, 6] then Double
      else if canSurrender \<and> n = 2 \<and> playerVal = 16 \<and> dealerVal \<in> set [9, 10, 11]
        then Surrender
      else if canSurrender \<and> n = 2 \<and> playerVal = 15 \<and> dealerVal = 10 then Surrender
      else Hit)"

text \<open>
  \<^verbatim>\<open>getOptimalAction\<close>. The dealer's up-card may be null (\<open>None\<close>); the first line
  returns hit for it and for an empty hand. \<open>splitAllowed\<close> is the parameter
  \<^verbatim>\<open>canSplit\<close>.
\<close>

definition getOptimalAction :: "hand \<Rightarrow> card option \<Rightarrow> bool \<Rightarrow> bool \<Rightarrow> bool \<Rightarrow> action" where
  "getOptimalAction playerHand dealerUpCard canDouble splitAllowed canSurrender =
     (case dealerUpCard of
        None \<Rightarrow> Hit
      | Some d \<Rightarrow>
          if playerHand = [] then Hit
          else
            (let playerVal = calculateHandValue playerHand;
                 dealerVal = (if cval d = 11 then (if rank d = ''A'' then 11 else cval d)
                                else cval d);
                 soft = isSoftHand playerHand;
                 pair = isPair playerHand
             in case (if pair \<and> splitAllowed
                      then pairStrategy (rank (playerHand ! 0)) dealerVal else None) of
                  Some a \<Rightarrow> a
                | None \<Rightarrow>
                    if soft then softStrategy playerVal dealerVal canDouble
                    else hardStrategy playerVal dealerVal (length playerHand)
                           canDouble canSurrender))"

section \<open>Decision recorder (App.jsx)\<close>

text \<open>
  A template literal prints an integer total in decimal, with a minus sign below zero.
\<close>

function showNat :: "nat \<Rightarrow> string" where
  "showNat n = (if n < 10 then [''0123456789'' ! n]
                else showNat (n div 10) @ [''0123456789'' ! (n mod 10)])"
  by pat_completeness auto
termination
  by (relation "measure id") auto

definition showInt :: "int \<Rightarrow> string" where
  "showInt i = (if i < 0 then ''-'' @ showNat (nat (- i)) else showNat (nat i))"

record scenario =
  count :: nat
  actions :: "action \<rightharpoonup> nat"
  optimalAction :: action
  correctDecisions :: nat

text \<open>
  A decision record; its \<^verbatim>\<open>timestamp\<close> (\<^verbatim>\<open>Date.now()\<close>) is left out. The fields
  \<^verbatim>\<open>playerHand\<close>, \<^verbatim>\<open>dealerUpCard\<close>, \<^verbatim>\<open>playerValue\<close>, \<^verbatim>\<open>dealerValue\<close>,
  \<^verbatim>\<open>action\<close>, \<^verbatim>\<open>optimalAction\<close> and \<^verbatim>\<open>scenarioKey\<close> carry the prefix \<open>d\<close>.
\<close>

record decision =
  dPlayerHand :: hand
  dDealerUpCard :: card
  dPlayerValue :: int
  dDealerValue :: int
  dAction :: action
  dOptimalAction :: action
  dScenarioKey :: string
  isOptimal :: bool

record stats =
  decisionHistory :: "decision list"
  scenarioStats :: "string \<rightharpoonup> scenario"

text \<open>The scenario identifier (lines 665 to 672).\<close>

definition scenarioKey :: "hand \<Rightarrow> card \<Rightarrow> string" where
  "scenarioKey playerHand dealerUpCard =
     (if isPair playerHand then
        ''pair_'' @ rank (playerHand ! 0) @ ''_vs_'' @ rank dealerUpCard
      else if isSoftHand playerHand then
        ''soft_'' @ showInt (calculateHandValue playerHand) @ ''_vs_'' @ rank dealerUpCard
      else
        ''hard_'' @ showInt (calculateHandValue playerHand) @ ''_vs_'' @ rank dealerUpCard)"

text \<open>
  \<^verbatim>\<open>recordDecision\<close>: the two state updates, \<^verbatim>\<open>setDecisionHistory\<close> and
  \<^verbatim>\<open>setScenarioStats\<close>, on the recorder's state. The optimal action is asked with
  the default capabilities, all true.
\<close>

definition recordDecision :: "hand \<Rightarrow> card option \<Rightarrow> action \<Rightarrow> stats \<Rightarrow> stats" where
  "recordDecision playerHand dealerUpCard act st =
     (case dealerUpCard of
        None \<Rightarrow> st
      | Some d \<Rightarrow>
          if playerHand = [] then st
          else
            (let playerVal = calculateHandValue playerHand;
                 dealerVal = cval d;
                 key = scenarioKey playerHand d;
                 opt = getOptimalAction playerHand (Some d) True True True;
                 dec = \<lparr>dPlayerHand = playerHand, dDealerUpCard = d, dPlayerValue = playerVal,
                        dDealerValue = dealerVal, dAction = act, dOptimalAction = opt,
                        dScenarioKey = key, isOptimal = (act = opt)\<rparr>;
                 sc = (case scenarioStats st key of
                         Some x \<Rightarrow> x
                       | None \<Rightarrow> \<lparr>count = 0, actions = Map.empty, optimalAction = opt,
                                   correctDecisions = 0\<rparr>);
                 sc' = sc\<lparr>count := count sc + 1,
                         actions := (actions sc)(act \<mapsto> (case actions sc act of
                                                             Some n \<Rightarrow> n | None \<Rightarrow> 0) + 1),
                         correctDecisions := (if act = opt then correctDecisions sc + 1
                                              else correctDecisions sc)\<rparr>
             in st\<lparr>decisionHistory := decisionHistory st @ [dec],
                   scenarioStats := (scenarioStats st)(key \<mapsto> sc')\<rparr>))"

section \<open>The split handler (App.jsx)\<close>

text \<open>
  The part of the component's state that \<^verbatim>\<open>split\<close> reads and sets. The state
  variables \<^verbatim>\<open>playerHands\<close>, \<^verbatim>\<open>handBets\<close>, \<^verbatim>\<open>dealerHand\<close> and \<^verbatim>\<open>bankroll\<close>
  carry the prefix \<open>t\<close>. An entry of \<^verbatim>\<open>handBets\<close> may be absent (\<open>None\<close>), since
  an assignment past the end of an array leaves holes.
\<close>

record trainer =
  tPlayerHands :: "hand list"
  tHandBets :: "rat option list"
  tDealerHand :: hand
  currentHandIndex :: nat
  tBankroll :: rat
  currentBet :: rat
  handsToPlay :: nat
  deck :: hand
  recorded :: stats

text \<open>\<^verbatim>\<open>next[i] = next[i] ?? v\<close> on a copy of the array.\<close>

definition fillAt :: "'a option list \<Rightarrow> nat \<Rightarrow> 'a \<Rightarrow> 'a option list" where
  "fillAt xs i v =
     (if i < length xs then (case xs ! i of None \<Rightarrow> xs[i := Some v] | Some _ \<Rightarrow> xs)
      else xs @ replicate (i - length xs) None @ [Some v])"

text \<open>
  \<^verbatim>\<open>split\<close> (lines 477 to 531). Reading \<^verbatim>\<open>playerHands[currentHandIndex]\<close> past the
  end makes \<^verbatim>\<open>canSplit\<close> throw inside the \<^verbatim>\<open>try\<close> before any state is set. The
  deck is popped from its end. When the deck is empty the handler returns after the
  state updates made so far; otherwise the drawn card is pushed onto the first of the
  two new hands and the decision is recorded with the argument \<^verbatim>\<open>[currentHand[0]]\<close>.
\<close>

definition split :: "trainer \<Rightarrow> trainer" where
  "split s =
     (let i = currentHandIndex s in
      if i \<ge> length (tPlayerHands s) then s
      else if \<not> canSplit (tPlayerHands s ! i) \<or> tBankroll s < currentBet s then s
      else if length (tPlayerHands s ! i) \<noteq> 2 then s
      else
        (let currentHand = tPlayerHands s ! i;
             newHands = (tPlayerHands s)[i := [currentHand ! 0]] @ [[currentHand ! 1]];
             s1 = s\<lparr>tBankroll := tBankroll s - currentBet s,
                    tHandBets := fillAt (tHandBets s) i (currentBet s) @ [Some (currentBet s)],
                    handsToPlay := handsToPlay s + 1\<rparr>
         in if deck s = [] then s1\<lparr>tPlayerHands := newHands\<rparr>
            else
              (let newCard = last (deck s);
                   s2 = s1\<lparr>tPlayerHands := newHands[i := [currentHand ! 0, newCard]],
                           deck := butlast (deck s)\<rparr>
               in if length (tDealerHand s) > 0
                  then s2\<lparr>recorded := recordDecision [currentHand ! 0]
                                          (Some (tDealerHand s ! 0)) Split (recorded s)\<rparr>
                  else s2)))"

text \<open>A pair of eights against a dealer 7, on a bet of 25, with two cards left in the deck.\<close>

definition eights :: trainer where
  "eights = \<lparr>tPlayerHands = [[C ''8'' 8, C ''8'' 8]], tHandBets = [Some 25],
     tDealerHand = [C ''7'' 7, C ''10'' 10], currentHandIndex = 0, tBankroll = 975,
     currentBet = 25, handsToPlay = 1, deck = [C ''5'' 5, C ''3'' 3],
     recorded = \<lparr>decisionHistory = [], scenarioStats = Map.empty\<rparr>\<rparr>"

section \<open>The soft table as the specification words it\<close>

text \<open>
  The soft rules of the strategy table by total and dealer up-card, every doubling
  under the capability \<open>canDouble\<close>.
\<close>

definition softTable :: "int \<Rightarrow> int \<Rightarrow> bool \<Rightarrow> action" where
  "softTable tot up canDouble =
     (if tot \<ge> 19 then Stand
      else if tot = 18 then
        (if up \<in> {3..6} \<and> canDouble then Double else if up \<ge> 9 then Hit else Stand)
      else if canDouble \<and> tot = 17 \<and> up \<in> {3..6} then Double
      else if canDouble \<and> tot \<in> {15..16} \<and> up \<in> {4..6} then Double
      else if canDouble \<and> tot \<in> {13..14} \<and> up \<in> {5..6} then Double
      else Hit)"

section \<open>Round resolution over a store of arrays\<close>

text \<open>
  To speak of what \<^verbatim>\<open>resolveBlackjackRound\<close> writes, its arrays are placed in a
  store: a list of array objects, an address being an index into it. A new array is
  appended to the store, so its address is the length of the store before. The
  \<^verbatim>\<open>playerHands\<close> array holds the addresses of the hand arrays. Reading an address
  that holds no array of the expected kind gives the empty array.
\<close>

type_synonym addr = nat

datatype obj = Cards "card list" | Hands "addr list" | Bets "rat list" | Outcomes "outcome list"

type_synonym store = "obj list"

definition cardsAt :: "store \<Rightarrow> addr \<Rightarrow> hand" where
  "cardsAt st a = (if a < length st then (case st ! a of Cards cs \<Rightarrow> cs | _ \<Rightarrow> []) else [])"

definition handsAt :: "store \<Rightarrow> addr \<Rightarrow> addr list" where
  "handsAt st a = (if a < length st then (case st ! a of Hands hs \<Rightarrow> hs | _ \<Rightarrow> []) else [])"

definition betsIn :: "store \<Rightarrow> addr \<Rightarrow> rat list" where
  "betsIn st a = (if a < length st then (case st ! a of Bets bs \<Rightarrow> bs | _ \<Rightarrow> []) else [])"

definition outcomesAt :: "store \<Rightarrow> addr \<Rightarrow> outcome list" where
  "outcomesAt st a = (if a < length st then (case st ! a of Outcomes os \<Rightarrow> os | _ \<Rightarrow> []) else [])"

text \<open>\<^verbatim>\<open>outcomes.push(x)\<close>: the one write of the function, into the array at \<open>a\<close>.\<close>

definition pushOutcome :: "store \<Rightarrow> addr \<Rightarrow> outcome \<Rightarrow> store" where
  "pushOutcome st a x =
     (if a < length st then (case st ! a of Outcomes os \<Rightarrow> st[a := Outcomes (os @ [x])] | _ \<Rightarrow> st)
      else st)"

text \<open>
  The dealer loop: \<^verbatim>\<open>dealerShown.concat(card)\<close> builds a new array and
  \<open>dealerShown\<close> is bound to its address.
\<close>

function dealerLoopS :: "store \<Rightarrow> addr \<Rightarrow> bool \<Rightarrow> nat \<Rightarrow> addr \<Rightarrow> int \<Rightarrow> store \<times> addr \<times> int" where
  "dealerLoopS st dh h17 dealerIdx shown dVal =
     (if dVal < 17 \<or> (dVal = 17 \<and> h17 \<and> isSoft (cardsAt st shown)) then
        (if dealerIdx \<ge> length (cardsAt st dh) then (st, shown, dVal)
         else dealerLoopS (st @ [Cards (cardsAt st shown @ [cardsAt st dh ! dealerIdx])]) dh h17
                (dealerIdx + 1) (length st)
                (calcValue (cardsAt st shown @ [cardsAt st dh ! dealerIdx])))
      else (st, shown, dVal))"
  by pat_completeness auto
termination
  by (relation "measure (\<lambda>(st, dh, h17, dealerIdx, shown, dVal). length (cardsAt st dh) - dealerIdx)")
    (auto simp: cardsAt_def nth_append split: if_splits)

text \<open>The settlement loop: every branch pushes one outcome onto the array at \<open>outs\<close>.\<close>

function settleLoopS :: "store \<Rightarrow> addr \<Rightarrow> addr \<Rightarrow> rat \<Rightarrow> int \<Rightarrow> nat \<Rightarrow> addr \<Rightarrow> rat \<Rightarrow> store \<times> rat" where
  "settleLoopS st ph hb dflt dVal i outs totalPayout =
     (if i < length (handsAt st ph) then
        (let h = cardsAt st (handsAt st ph ! i); b = betAt (betsIn st hb) i dflt;
             pVal = calcValue h in
         if pVal > 21 then
           settleLoopS (pushOutcome st outs \<lparr>result = Bust, bet = b, playerValue = pVal\<rparr>)
             ph hb dflt dVal (i + 1) outs totalPayout
         else if dVal > 21 then
           settleLoopS (pushOutcome st outs \<lparr>result = Win, bet = b, playerValue = pVal\<rparr>)
             ph hb dflt dVal (i + 1) outs (totalPayout + b * 2)
         else if pVal > dVal then
           settleLoopS (pushOutcome st outs \<lparr>result = Win, bet = b, playerValue = pVal\<rparr>)
             ph hb dflt dVal (i + 1) outs (totalPayout + b * 2)
         else if pVal < dVal then
           settleLoopS (pushOutcome st outs \<lparr>result = Loss, bet = b, playerValue = pVal\<rparr>)
             ph hb dflt dVal (i + 1) outs totalPayout
         else
           settleLoopS (pushOutcome st outs \<lparr>result = Push, bet = b, playerValue = pVal\<rparr>)
             ph hb dflt dVal (i + 1) outs (totalPayout + b))
      else (st, totalPayout))"
  by pat_completeness auto
termination
  by (relation "measure (\<lambda>(st, ph, hb, dflt, dVal, i, outs, totalPayout). length (handsAt st ph) - i)")
    (auto simp: handsAt_def pushOutcome_def nth_list_update split: obj.splits if_splits)

text \<open>
  The returned object: the bankroll and the dealer total are numbers, the outcomes and
  the dealer's final hand are references to arrays.
\<close>

record round_refs =
  bankrollS :: rat
  outcomesS :: addr
  dealerFinalHandS :: addr
  dealerValueS :: int

text \<open>
  \<^verbatim>\<open>resolveBlackjackRound\<close> on the store. \<^verbatim>\<open>dealerHand.slice(0, ...)\<close> and the
  literal \<^verbatim>\<open>[]\<close> of \<open>outcomes\<close> are the two allocations outside the dealer loop.
  The early returns hand back \<^verbatim>\<open>dealerHand\<close> itself as the final hand.
\<close>

definition resolveS :: "store \<Rightarrow> addr \<Rightarrow> addr \<Rightarrow> rat \<Rightarrow> addr \<Rightarrow> rat \<Rightarrow> bool \<Rightarrow> bool
    \<Rightarrow> store \<times> round_refs" where
  "resolveS st ph dh bank hb dflt h17 cnb =
     (let dHand = cardsAt st dh;
          st1 = st @ [Cards (take (min 2 (length dHand)) dHand)]
      in case dealerLoopS st1 dh h17 2 (length st) (calcValue dHand) of
        (st2, shown, dVal) \<Rightarrow>
          (let outs = length st2;
               st3 = st2 @ [Outcomes []];
               dealerNatural = (cnb \<and> isBlackjack (cardsAt st3 shown));
               initial = (cnb \<and> (case handsAt st3 ph of
                                    [a] \<Rightarrow> length (cardsAt st3 a) = 2 | _ \<Rightarrow> False));
               normal = (case settleLoopS st3 ph hb dflt dVal 0 outs 0 of
                           (st4, totalPayout) \<Rightarrow>
                             (st4, \<lparr>bankrollS = max 0 (bank + totalPayout), outcomesS = outs,
                                    dealerFinalHandS = shown, dealerValueS = dVal\<rparr>))
           in if initial then
                (let bet0 = betAt (betsIn st3 hb) 0 dflt;
                     playerNatural = isBlackjack (cardsAt st3 (hd (handsAt st3 ph)))
                 in if playerNatural \<and> dealerNatural then
                      (pushOutcome st3 outs \<lparr>result = Push, bet = bet0, playerValue = 21\<rparr>,
                       \<lparr>bankrollS = max 0 (bank + bet0), outcomesS = outs,
                        dealerFinalHandS = dh, dealerValueS = dVal\<rparr>)
                    else if playerNatural \<and> \<not> dealerNatural then
                      (pushOutcome st3 outs \<lparr>result = Blackjack, bet = bet0, playerValue = 21\<rparr>,
                       \<lparr>bankrollS = max 0 (bank + bet0 * 2.5), outcomesS = outs,
                        dealerFinalHandS = dh, dealerValueS = dVal\<rparr>)
                    else normal)
              else normal))"

text \<open>The outcome pushed and the payout added by one round of the settlement loop.\<close>

definition settleStep :: "store \<Rightarrow> addr \<Rightarrow> addr \<Rightarrow> rat \<Rightarrow> int \<Rightarrow> nat \<Rightarrow> outcome \<times> rat" where
  "settleStep st ph hb dflt dVal i =
     (let b = betAt (betsIn st hb) i dflt; pVal = calcValue (cardsAt st (handsAt st ph ! i))
      in (\<lparr>result = fst (settleSpec pVal dVal b), bet = b, playerValue = pVal\<rparr>,
          snd (settleSpec pVal dVal b)))"

text \<open>
  The arguments of a call as values, read from the store, and the returned object with
  its two arrays read from the store after the call.
\<close>

definition roundOf :: "store \<Rightarrow> addr \<Rightarrow> addr \<Rightarrow> rat \<Rightarrow> addr \<Rightarrow> rat \<Rightarrow> bool \<Rightarrow> bool \<Rightarrow> params" where
  "roundOf st ph dh bank hb dflt h17 cnb =
     \<lparr>playerHands = map (cardsAt st) (handsAt st ph), dealerHand = cardsAt st dh,
      bankroll = bank, handBets = betsIn st hb, defaultBet = dflt, dealerHitsSoft17 = h17,
      considerNaturalBlackjack = cnb\<rparr>"

definition resultOf :: "store \<times> round_refs \<Rightarrow> round_result" where
  "resultOf sr =
     \<lparr>rBankroll = bankrollS (snd sr), outcomes = outcomesAt (fst sr) (outcomesS (snd sr)),
      dealerFinalHand = cardsAt (fst sr) (dealerFinalHandS (snd sr)),
      dealerValue = dealerValueS (snd sr)\<rparr>"

text \<open>The three array arguments and every hand of \<^verbatim>\<open>playerHands\<close> are objects of the store.\<close>

definition liveArgs :: "store \<Rightarrow> addr \<Rightarrow> addr \<Rightarrow> addr \<Rightarrow> bool" where
  "liveArgs st ph dh hb \<longleftrightarrow>
     ph < length st \<and> dh < length st \<and> hb < length st \<and> list_all (\<lambda>a. a < length st) (handsAt st ph)"

text \<open>A store holding one bust hand, the dealer's 6 and 7 and a bet of 25.\<close>

definition sampleStore :: store where
  "sampleStore = [Hands [1], Cards [C ''4'' 4, C ''Q'' 10, C ''K'' 10],
                  Cards [C ''6'' 6, C ''7'' 7], Bets [25]]"

section \<open>Properties of the settlement loop\<close>

declare settleLoop.simps [simp del] dealerLoop.simps [simp del] demote.simps [simp del]

lemma settleLoop_step:
  "i < length (playerHands p) \<Longrightarrow>
   settleLoop (playerHands p) (handBets p) (defaultBet p) dVal i outs tp =
   settleLoop (playerHands p) (handBets p) (defaultBet p) dVal (Suc i)
     (outs @ [settledHand p dVal i]) (tp + handPayout p dVal i)"
  by (subst settleLoop.simps) (simp add: Let_def settledHand_def handPayout_def settleSpec_def mult.commute)

lemma settleLoop_done:
  "\<not> i < length hands \<Longrightarrow> settleLoop hands bets dflt dVal i outs tp = (outs, tp)"
  by (subst settleLoop.simps) simp

lemma settleLoop_eq:
  "settleLoop (playerHands p) (handBets p) (defaultBet p) dVal i outs tp =
     (outs @ map (settledHand p dVal) [i..<length (playerHands p)],
      tp + (\<Sum>j\<leftarrow>[i..<length (playerHands p)]. handPayout p dVal j))"
proof (induction "length (playerHands p) - i" arbitrary: i outs tp)
  case 0
  then show ?case by (simp add: settleLoop_done)
next
  case (Suc n)
  then have lt: "i < length (playerHands p)" and n: "n = length (playerHands p) - Suc i"
    by arith+
  show ?case
    using Suc.hyps(1)[OF n] lt by (simp add: settleLoop_step upt_conv_Cons add.assoc)
qed

lemma normalResolution_eq:
  "normalResolution p ds dv =
     \<lparr>rBankroll = max 0 (bankroll p + (\<Sum>j\<leftarrow>[0..<length (playerHands p)]. handPayout p dv j)),
      outcomes = map (settledHand p dv) [0..<length (playerHands p)],
      dealerFinalHand = ds, dealerValue = dv\<rparr>"
  by (simp add: normalResolution_def settleLoop_eq)

lemma payoutOf_settledHand: "payoutOf (settledHand p dv i) = handPayout p dv i"
  by (simp add: payoutOf_def settledHand_def handPayout_def settleSpec_def)

lemma normalResolution_payouts:
  "rBankroll (normalResolution p ds dv) =
     max 0 (bankroll p + (\<Sum>oc\<leftarrow>outcomes (normalResolution p ds dv). payoutOf oc))"
  by (simp add: normalResolution_eq comp_def payoutOf_settledHand)

lemma resolve_cases:
  obtains (push) ds dv where "dealerDraw (dealerHand p) (dealerHitsSoft17 p) = (ds, dv)"
      "treatAsInitial p" "isBlackjack (hd (playerHands p))" "isBlackjack ds"
      "resolveBlackjackRound p =
         \<lparr>rBankroll = max 0 (bankroll p + betAt (handBets p) 0 (defaultBet p)),
          outcomes = [\<lparr>result = Push, bet = betAt (handBets p) 0 (defaultBet p), playerValue = 21\<rparr>],
          dealerFinalHand = dealerHand p, dealerValue = dv\<rparr>"
  | (blackjack) ds dv where "dealerDraw (dealerHand p) (dealerHitsSoft17 p) = (ds, dv)"
      "treatAsInitial p" "isBlackjack (hd (playerHands p))" "\<not> isBlackjack ds"
      "resolveBlackjackRound p =
         \<lparr>rBankroll = max 0 (bankroll p + betAt (handBets p) 0 (defaultBet p) * 2.5),
          outcomes = [\<lparr>result = Blackjack, bet = betAt (handBets p) 0 (defaultBet p), playerValue = 21\<rparr>],
          dealerFinalHand = dealerHand p, dealerValue = dv\<rparr>"
  | (normal) ds dv where "dealerDraw (dealerHand p) (dealerHitsSoft17 p) = (ds, dv)"
      "reachesNormal p" "resolveBlackjackRound p = normalResolution p ds dv"
proof -
  obtain ds dv where d: "dealerDraw (dealerHand p) (dealerHitsSoft17 p) = (ds, dv)"
    by (cases "dealerDraw (dealerHand p) (dealerHitsSoft17 p)")
  show thesis
  proof (cases "treatAsInitial p \<and> isBlackjack (hd (playerHands p))")
    case False
    then have "resolveBlackjackRound p = normalResolution p ds dv"
      by (auto simp: resolveBlackjackRound_def d Let_def)
    with False d show thesis by (intro normal) (auto simp: reachesNormal_def)
  next
    case True
    then have c: "considerNaturalBlackjack p" by (simp add: treatAsInitial_def)
    show thesis
    proof (cases "isBlackjack ds")
      case True
      with \<open>treatAsInitial p \<and> _\<close> c d show thesis
        by (intro push) (auto simp: resolveBlackjackRound_def Let_def)
    next
      case False
      with \<open>treatAsInitial p \<and> _\<close> c d show thesis
        by (intro blackjack) (auto simp: resolveBlackjackRound_def Let_def)
    qed
  qed
qed

section \<open>Bankroll\<close>

text \<open>
  Claim C4. On every return path of \<open>resolveBlackjackRound\<close>, the two natural-blackjack
  early returns included, the returned bankroll is the larger of 0 and the input
  bankroll plus the sum of the payouts of the returned outcomes; it is therefore never
  negative.
\<close>

theorem resolve_bankroll_clamped:
  "rBankroll (resolveBlackjackRound p) =
     max 0 (bankroll p + (\<Sum>oc\<leftarrow>outcomes (resolveBlackjackRound p). payoutOf oc))
   \<and> 0 \<le> rBankroll (resolveBlackjackRound p)"
proof -
  have eq: "rBankroll (resolveBlackjackRound p) =
     max 0 (bankroll p + (\<Sum>oc\<leftarrow>outcomes (resolveBlackjackRound p). payoutOf oc))"
  proof (cases p rule: resolve_cases)
    case (push ds dv)
    then show ?thesis by (simp add: payoutOf_def)
  next
    case (blackjack ds dv)
    then show ?thesis by (simp add: payoutOf_def)
  next
    case (normal ds dv)
    then show ?thesis by (simp only: normalResolution_payouts)
  qed
  then have "0 \<le> rBankroll (resolveBlackjackRound p)" by simp
  with eq show ?thesis by simp
qed

lemmas eval_hand = calcValue_def demote.simps betAt_def isSoft_def

section \<open>Normal settlement\<close>

text \<open>
  Claim C1. A call of \<open>resolveBlackjackRound\<close> that reaches normal settlement returns
  exactly one outcome per player hand, in input order, each carrying that hand's own bet
  (\<open>handBets[i]\<close>, or the default bet past the end of the array) and total. Each hand is
  classified on its own by the rule \<open>settleSpec\<close>: bust with payout 0 above 21, else
  win with twice the bet when the dealer is above 21 or below the player, loss with 0
  when the dealer is above the player, push with the bet on equal totals. The bankroll
  moves by the sum of these payouts, and a hand that is not bust is a loss, a push or a
  win with payout 0, bet or twice the bet.
\<close>

theorem normal_settlement_per_hand:
  assumes "reachesNormal p"
  shows "outcomes (resolveBlackjackRound p) =
           map (settledHand p (dealerValue (resolveBlackjackRound p))) [0..<length (playerHands p)]
       \<and> rBankroll (resolveBlackjackRound p) =
           max 0 (bankroll p +
             (\<Sum>i\<leftarrow>[0..<length (playerHands p)]. handPayout p (dealerValue (resolveBlackjackRound p)) i))
       \<and> (\<forall>i < length (playerHands p).
            let oc = outcomes (resolveBlackjackRound p) ! i;
                pay = handPayout p (dealerValue (resolveBlackjackRound p)) i
            in result oc \<noteq> Blackjack \<and> result oc \<noteq> result_kind.Surrender \<and>
               (result oc \<noteq> Bust \<longrightarrow>
                  (result oc = Loss \<and> pay = 0) \<or> (result oc = Push \<and> pay = bet oc)
                  \<or> (result oc = Win \<and> pay = 2 * bet oc)))"
proof (cases p rule: resolve_cases)
  case (push ds dv)
  with assms show ?thesis by (simp add: reachesNormal_def)
next
  case (blackjack ds dv)
  with assms show ?thesis by (simp add: reachesNormal_def)
next
  case (normal ds dv)
  have r: "resolveBlackjackRound p =
     \<lparr>rBankroll = max 0 (bankroll p + (\<Sum>j\<leftarrow>[0..<length (playerHands p)]. handPayout p dv j)),
      outcomes = map (settledHand p dv) [0..<length (playerHands p)],
      dealerFinalHand = ds, dealerValue = dv\<rparr>"
    using normal(3) by (simp only: normalResolution_eq)
  have "\<forall>i < length (playerHands p).
          let oc = settledHand p dv i; pay = handPayout p dv i
          in result oc \<noteq> Blackjack \<and> result oc \<noteq> result_kind.Surrender \<and>
             (result oc \<noteq> Bust \<longrightarrow>
                (result oc = Loss \<and> pay = 0) \<or> (result oc = Push \<and> pay = bet oc)
                \<or> (result oc = Win \<and> pay = 2 * bet oc))"
    by (simp add: Let_def settledHand_def handPayout_def settleSpec_def)
  then show ?thesis
    unfolding r by simp
qed


theorem normal_settlement_per_hand_witness:
  "reachesNormal fourHands
   \<and> outcomes (resolveBlackjackRound fourHands) =
       [\<lparr>result = Win, bet = 25, playerValue = 20\<rparr>, \<lparr>result = Push, bet = 50, playerValue = 18\<rparr>,
        \<lparr>result = Loss, bet = 10, playerValue = 17\<rparr>, \<lparr>result = Bust, bet = 10, playerValue = 24\<rparr>]
   \<and> rBankroll (resolveBlackjackRound fourHands) = 1100"
proof -
  have h: "reachesNormal fourHands"
    by (simp add: reachesNormal_def fourHands_def treatAsInitial_def)
  have dv: "dealerValue (resolveBlackjackRound fourHands) = 18"
    by (simp add: resolveBlackjackRound_def fourHands_def treatAsInitial_def dealerDraw_def
        dealerLoop.simps normalResolution_def eval_hand split: prod.split)
  have u: "[0..<4] = [0, 1, 2, 3]"
    by (simp add: upt_rec)
  show ?thesis
    using h normal_settlement_per_hand [OF h]
    by (simp add: dv u) (simp add: fourHands_def settledHand_def handPayout_def settleSpec_def eval_hand)
qed

section \<open>Hand values and softness\<close>

lemma tally_eq: "tally h v a = (v + nominalTotal h, a + aceCount h)"
  by (induction h arbitrary: v a) (simp_all add: nominalTotal_def aceCount_def isAce_def)

lemma aceTally_eq: "aceTally h v b = (v + nominalTotal h, b \<or> aceCount h > 0)"
  by (induction h arbitrary: v b) (simp_all add: nominalTotal_def aceCount_def isAce_def)

lemma softTally_eq:
  "softTally h b a = (b + (\<Sum>c\<leftarrow>h. if isAce c then 1 else cval c), a + aceCount h)"
  by (induction h arbitrary: b a) (simp_all add: aceCount_def isAce_def)

lemma demote_left: "0 < snd (demote v a) \<longleftrightarrow> 0 < a \<and> v - 10 * (int a - 1) \<le> 21"
proof (induction v a rule: demote.induct)
  case (1 v a)
  show ?case
  proof (cases "v > 21 \<and> a > 0")
    case True
    then have "demote v a = demote (v - 10) (a - 1)"
      by (subst demote.simps) simp
    with 1 True show ?thesis
      by (cases a) (auto simp: algebra_simps)
  next
    case False
    then have "demote v a = (v, a)"
      by (subst demote.simps) auto
    with False show ?thesis
      by (cases a) (auto simp: algebra_simps)
  qed
qed

lemma acesAtEleven_iff: "0 < acesAtEleven h \<longleftrightarrow> softSpec h"
  by (simp add: acesAtEleven_def tally_eq demote_left softSpec_def) arith

lemma aceCount_pos: "0 < aceCount h \<longleftrightarrow> (\<exists>c \<in> set h. isAce c)"
  by (induction h) (auto simp: aceCount_def)

lemma ace_sum:
  "\<forall>c \<in> set h. isAce c \<longrightarrow> cval c = 11 \<Longrightarrow>
   (\<Sum>c\<leftarrow>h. if isAce c then 1 else cval c) = nominalTotal h - 10 * int (aceCount h)"
  by (induction h) (simp_all add: nominalTotal_def aceCount_def)

lemma isSoft_iff_reduction:
  assumes "\<forall>c \<in> set h. isAce c \<longrightarrow> cval c = 11"
  shows "isSoft h \<longleftrightarrow> (\<exists>c \<in> set h. isAce c) \<and> 0 < acesAtEleven h"
    and "isSoft h \<longleftrightarrow> softSpec h"
proof -
  show "isSoft h \<longleftrightarrow> softSpec h"
    by (simp add: isSoft_def softTally_eq ace_sum[OF assms] softSpec_def) arith
  moreover have "softSpec h \<Longrightarrow> \<exists>c \<in> set h. isAce c"
    using aceCount_pos[of h] by (simp add: softSpec_def)
  ultimately show "isSoft h \<longleftrightarrow> (\<exists>c \<in> set h. isAce c) \<and> 0 < acesAtEleven h"
    by (auto simp: acesAtEleven_iff)
qed

lemma isSoftHand_iff: "isSoftHand h \<longleftrightarrow> aceCount h > 0 \<and> nominalTotal h \<le> 21"
  using aceCount_pos[of h] by (auto simp: isSoftHand_def aceTally_eq list_ex_iff isAce_def)

text \<open>
  Claim C5. A hand is soft exactly when it holds an Ace and the reduction loop of the
  hand total leaves an Ace counted as 11. \<open>isSoft\<close> of blackjackLogic.js computes this
  (\<open>isSoft_iff_reduction\<close>), but \<open>isSoftHand\<close> of App.jsx tests the nominal total
  against 21 and so denies it for two Aces: the total is 12 with one Ace still at 11.
\<close>

theorem isSoftHand_two_aces:
  "\<not> isSoftHand [C ''A'' 11, C ''A'' 11]
   \<and> calculateHandValue [C ''A'' 11, C ''A'' 11] = 12
   \<and> acesAtEleven [C ''A'' 11, C ''A'' 11] = 1
   \<and> softSpec [C ''A'' 11, C ''A'' 11]
   \<and> isSoft [C ''A'' 11, C ''A'' 11]"
  by (simp add: isSoftHand_def calculateHandValue_def acesAtEleven_def demote.simps softSpec_def
      aceCount_def nominalTotal_def isAce_def isSoft_def)

section \<open>The dealer's draw\<close>

lemma dealerLoop_go:
  "dealerHits h17 shown dVal \<Longrightarrow> i < length dHand \<Longrightarrow>
   dealerLoop dHand h17 i shown dVal =
   dealerLoop dHand h17 (i + 1) (shown @ [dHand ! i]) (calcValue (shown @ [dHand ! i]))"
  by (subst dealerLoop.simps) (auto simp: dealerHits_def)

lemma dealerLoop_stop:
  "\<not> (dealerHits h17 shown dVal \<and> i < length dHand) \<Longrightarrow>
   dealerLoop dHand h17 i shown dVal = (shown, dVal)"
  by (subst dealerLoop.simps) (auto simp: dealerHits_def)

text \<open>
  What the loop does from its entry: it appends the next \<open>k\<close> cards of the array, the
  total it returns is that of the hand drawn when a card was drawn, and it leaves when
  the condition fails or no card is left. Without cards beyond the first two nothing is
  drawn.
\<close>

lemma dealerLoop_result:
  "dealerLoop dHand h17 i shown dVal = (shown', dVal') \<Longrightarrow>
   \<exists>k. shown' = shown @ take k (drop i dHand) \<and> i + k \<le> max i (length dHand)
     \<and> dVal' = (if k = 0 then dVal else calcValue shown')
     \<and> (\<not> dealerHits h17 shown' dVal' \<or> length dHand \<le> i + k)"
proof (induction "length dHand - i" arbitrary: i shown dVal)
  case 0
  then have "(shown', dVal') = (shown, dVal)"
    by (simp add: dealerLoop_stop)
  with 0 show ?case
    by (intro exI[of _ 0]) auto
next
  case (Suc n)
  from Suc.hyps(2) have lt: "i < length dHand" by arith
  show ?case
  proof (cases "dealerHits h17 shown dVal")
    case False
    with Suc.prems have "(shown', dVal') = (shown, dVal)"
      by (simp add: dealerLoop_stop)
    with False show ?thesis
      by (intro exI[of _ 0]) auto
  next
    case True
    let ?s = "shown @ [dHand ! i]"
    from True lt Suc.prems
    have run: "dealerLoop dHand h17 (i + 1) ?s (calcValue ?s) = (shown', dVal')"
      by (simp add: dealerLoop_go)
    have n: "n = length dHand - (i + 1)"
      using Suc.hyps(2) by simp
    from Suc.hyps(1)[OF n run] obtain k where
      k: "shown' = ?s @ take k (drop (i + 1) dHand)" "i + 1 + k \<le> max (i + 1) (length dHand)"
         "dVal' = (if k = 0 then calcValue ?s else calcValue shown')"
         "\<not> dealerHits h17 shown' dVal' \<or> length dHand \<le> i + 1 + k"
      by blast
    have 1: "shown' = shown @ take (Suc k) (drop i dHand)"
      using k(1) lt by (simp add: Cons_nth_drop_Suc[symmetric])
    have 2: "i + Suc k \<le> max i (length dHand)"
      using k(2) lt by simp
    have "dVal' = calcValue shown'"
      using k(1,3) by (cases "k = 0") simp_all
    then have 3: "dVal' = (if Suc k = 0 then dVal else calcValue shown')"
      by simp
    have 4: "\<not> dealerHits h17 shown' dVal' \<or> length dHand \<le> i + Suc k"
      using k(4) by simp
    from 1 2 3 4 show ?thesis
      by blast
  qed
qed

lemma dealerDraw_no_supply:
  "length dHand \<le> 2 \<Longrightarrow> dealerDraw dHand h17 = (dHand, calcValue dHand)"
  by (simp add: dealerDraw_def dealerLoop_stop)

text \<open>
  Claim C2. The dealer draws exactly while the hand drawn so far is below 17 (or is a
  soft 17 that the house rule hits) and stops otherwise or when no card is left. The
  loop tests \<open>dVal\<close>, which starts as the total of the whole \<open>dealerHand\<close> array and
  not of the two cards shown: with 5, 5 and a 10 to draw the dealer stops on 10 and
  reports 20, and with a soft 18 and a 5 to draw the dealer draws.
\<close>

theorem dealer_draw_ignores_shown_total:
  "dealerDraw [C ''5'' 5, C ''5'' 5, C ''10'' 10] True = ([C ''5'' 5, C ''5'' 5], 20)
   \<and> calcValue [C ''5'' 5, C ''5'' 5] = 10
   \<and> dealerFinalHand (resolveBlackjackRound
         \<lparr>playerHands = [[C ''10'' 10, C ''9'' 9]], dealerHand = [C ''5'' 5, C ''5'' 5, C ''10'' 10],
          bankroll = 975, handBets = [25], defaultBet = 25, dealerHitsSoft17 = True,
          considerNaturalBlackjack = True\<rparr>) = [C ''5'' 5, C ''5'' 5]
   \<and> dealerValue (resolveBlackjackRound
         \<lparr>playerHands = [[C ''10'' 10, C ''9'' 9]], dealerHand = [C ''5'' 5, C ''5'' 5, C ''10'' 10],
          bankroll = 975, handBets = [25], defaultBet = 25, dealerHitsSoft17 = True,
          considerNaturalBlackjack = True\<rparr>) = 20
   \<and> dealerDraw [C ''A'' 11, C ''7'' 7, C ''5'' 5] True = ([C ''A'' 11, C ''7'' 7, C ''5'' 5], 13)
   \<and> calcValue [C ''A'' 11, C ''7'' 7] = 18"
  by (simp add: resolveBlackjackRound_def treatAsInitial_def normalResolution_def isBlackjack_def
      dealerDraw_def dealerLoop.simps eval_hand split: prod.split)

section \<open>Natural blackjack\<close>

text \<open>
  When the dealer's array holds no card beyond the first two, the dealer's hand is
  that array and the natural handling is as the specification words it: with natural
  evaluation enabled and one player hand of two cards, two naturals push and return the
  stake once, a player natural alone is a blackjack that returns 2.5 times the stake,
  and every other round is settled hand by hand by \<open>settleSpec\<close>, where a dealer natural
  alone beats the player's two cards.
\<close>

lemma natural_handling_without_supply:
  assumes two: "length (dealerHand p) \<le> 2"
  shows "treatAsInitial p \<longleftrightarrow>
           considerNaturalBlackjack p \<and> length (playerHands p) = 1 \<and> length (playerHands p ! 0) = 2"
    and "treatAsInitial p \<Longrightarrow> isBlackjack (playerHands p ! 0) \<Longrightarrow> isBlackjack (dealerHand p) \<Longrightarrow>
         resolveBlackjackRound p =
           \<lparr>rBankroll = max 0 (bankroll p + 1 * betAt (handBets p) 0 (defaultBet p)),
            outcomes = [\<lparr>result = Push, bet = betAt (handBets p) 0 (defaultBet p), playerValue = 21\<rparr>],
            dealerFinalHand = dealerHand p, dealerValue = 21\<rparr>"
    and "treatAsInitial p \<Longrightarrow> isBlackjack (playerHands p ! 0) \<Longrightarrow> \<not> isBlackjack (dealerHand p) \<Longrightarrow>
         resolveBlackjackRound p =
           \<lparr>rBankroll = max 0 (bankroll p + betAt (handBets p) 0 (defaultBet p) * 2.5),
            outcomes = [\<lparr>result = Blackjack, bet = betAt (handBets p) 0 (defaultBet p), playerValue = 21\<rparr>],
            dealerFinalHand = dealerHand p, dealerValue = calcValue (dealerHand p)\<rparr>"
    and "\<not> (treatAsInitial p \<and> isBlackjack (playerHands p ! 0)) \<Longrightarrow>
         resolveBlackjackRound p =
           \<lparr>rBankroll = max 0 (bankroll p +
              (\<Sum>i\<leftarrow>[0..<length (playerHands p)]. handPayout p (calcValue (dealerHand p)) i)),
            outcomes = map (settledHand p (calcValue (dealerHand p))) [0..<length (playerHands p)],
            dealerFinalHand = dealerHand p, dealerValue = calcValue (dealerHand p)\<rparr>"
    and "treatAsInitial p \<Longrightarrow> \<not> isBlackjack (playerHands p ! 0) \<Longrightarrow> isBlackjack (dealerHand p) \<Longrightarrow>
         outcomes (resolveBlackjackRound p) =
           [\<lparr>result = (if calcValue (playerHands p ! 0) > 21 then Bust else Loss),
             bet = betAt (handBets p) 0 (defaultBet p),
             playerValue = calcValue (playerHands p ! 0)\<rparr>]"
proof -
  have d: "dealerDraw (dealerHand p) (dealerHitsSoft17 p) = (dealerHand p, calcValue (dealerHand p))"
    using two by (rule dealerDraw_no_supply)
  show t: "treatAsInitial p \<longleftrightarrow>
        considerNaturalBlackjack p \<and> length (playerHands p) = 1 \<and> length (playerHands p ! 0) = 2"
    by (auto simp: treatAsInitial_def split: list.splits)
  have hd0: "treatAsInitial p \<Longrightarrow> hd (playerHands p) = playerHands p ! 0"
    by (auto simp: treatAsInitial_def split: list.splits)
  have c: "treatAsInitial p \<Longrightarrow> considerNaturalBlackjack p"
    by (simp add: treatAsInitial_def)
  show "treatAsInitial p \<Longrightarrow> isBlackjack (playerHands p ! 0) \<Longrightarrow> isBlackjack (dealerHand p) \<Longrightarrow>
         resolveBlackjackRound p =
           \<lparr>rBankroll = max 0 (bankroll p + 1 * betAt (handBets p) 0 (defaultBet p)),
            outcomes = [\<lparr>result = Push, bet = betAt (handBets p) 0 (defaultBet p), playerValue = 21\<rparr>],
            dealerFinalHand = dealerHand p, dealerValue = 21\<rparr>"
    using hd0 c by (simp add: resolveBlackjackRound_def d Let_def) (simp add: isBlackjack_def)
  show "treatAsInitial p \<Longrightarrow> isBlackjack (playerHands p ! 0) \<Longrightarrow> \<not> isBlackjack (dealerHand p) \<Longrightarrow>
         resolveBlackjackRound p =
           \<lparr>rBankroll = max 0 (bankroll p + betAt (handBets p) 0 (defaultBet p) * 2.5),
            outcomes = [\<lparr>result = Blackjack, bet = betAt (handBets p) 0 (defaultBet p), playerValue = 21\<rparr>],
            dealerFinalHand = dealerHand p, dealerValue = calcValue (dealerHand p)\<rparr>"
    using hd0 c by (simp add: resolveBlackjackRound_def d Let_def)
  show n: "\<not> (treatAsInitial p \<and> isBlackjack (playerHands p ! 0)) \<Longrightarrow>
         resolveBlackjackRound p =
           \<lparr>rBankroll = max 0 (bankroll p +
              (\<Sum>i\<leftarrow>[0..<length (playerHands p)]. handPayout p (calcValue (dealerHand p)) i)),
            outcomes = map (settledHand p (calcValue (dealerHand p))) [0..<length (playerHands p)],
            dealerFinalHand = dealerHand p, dealerValue = calcValue (dealerHand p)\<rparr>"
    using hd0 by (auto simp: resolveBlackjackRound_def d Let_def normalResolution_eq)
  show "treatAsInitial p \<Longrightarrow> \<not> isBlackjack (playerHands p ! 0) \<Longrightarrow> isBlackjack (dealerHand p) \<Longrightarrow>
         outcomes (resolveBlackjackRound p) =
           [\<lparr>result = (if calcValue (playerHands p ! 0) > 21 then Bust else Loss),
             bet = betAt (handBets p) 0 (defaultBet p),
             playerValue = calcValue (playerHands p ! 0)\<rparr>]"
  proof -
    assume a: "treatAsInitial p" "\<not> isBlackjack (playerHands p ! 0)" "isBlackjack (dealerHand p)"
    from a(1) t have l: "length (playerHands p) = 1" "length (playerHands p ! 0) = 2" by simp_all
    from a(2) l have v: "calcValue (playerHands p ! 0) \<noteq> 21" by (simp add: isBlackjack_def)
    from a(3) have dv: "calcValue (dealerHand p) = 21" by (simp add: isBlackjack_def)
    from n a(2) l v show ?thesis
      by (simp add: dv settledHand_def settleSpec_def)
  qed
qed

text \<open>
  Claim C3. With one player hand of two cards and natural evaluation enabled, a player
  natural against a dealer natural is a push that returns the stake, and a dealer
  natural alone falls through to normal settlement, where 21 beats the player. The
  dealer's natural is tested on \<open>dealerShown\<close> after the loop: when the array holds a
  card to draw behind the dealer's Ace and King, the loop, entered on the total 16 of
  the whole array, draws it, the three cards are no natural, and the player's natural is
  paid 2.5 times the stake; a player 19 wins against the total 16.
\<close>

theorem natural_lost_to_undrawn_card:
  "isBlackjack [C ''A'' 11, C ''K'' 10]
   \<and> isBlackjack (take 2 [C ''A'' 11, C ''K'' 10, C ''5'' 5])
   \<and> dealerDraw [C ''A'' 11, C ''K'' 10, C ''5'' 5] True = ([C ''A'' 11, C ''K'' 10, C ''5'' 5], 16)
   \<and> outcomes (resolveBlackjackRound
        \<lparr>playerHands = [[C ''A'' 11, C ''K'' 10]], dealerHand = [C ''A'' 11, C ''K'' 10, C ''5'' 5],
         bankroll = 975, handBets = [25], defaultBet = 25, dealerHitsSoft17 = True,
         considerNaturalBlackjack = True\<rparr>) = [\<lparr>result = Blackjack, bet = 25, playerValue = 21\<rparr>]
   \<and> rBankroll (resolveBlackjackRound
        \<lparr>playerHands = [[C ''A'' 11, C ''K'' 10]], dealerHand = [C ''A'' 11, C ''K'' 10, C ''5'' 5],
         bankroll = 975, handBets = [25], defaultBet = 25, dealerHitsSoft17 = True,
         considerNaturalBlackjack = True\<rparr>) = 2075 / 2
   \<and> outcomes (resolveBlackjackRound
        \<lparr>playerHands = [[C ''10'' 10, C ''9'' 9]], dealerHand = [C ''A'' 11, C ''K'' 10, C ''5'' 5],
         bankroll = 975, handBets = [25], defaultBet = 25, dealerHitsSoft17 = True,
         considerNaturalBlackjack = True\<rparr>) = [\<lparr>result = Win, bet = 25, playerValue = 19\<rparr>]
   \<and> rBankroll (resolveBlackjackRound
        \<lparr>playerHands = [[C ''10'' 10, C ''9'' 9]], dealerHand = [C ''A'' 11, C ''K'' 10, C ''5'' 5],
         bankroll = 975, handBets = [25], defaultBet = 25, dealerHitsSoft17 = True,
         considerNaturalBlackjack = True\<rparr>) = 1025"
proof -
  have d: "dealerDraw [C ''A'' 11, C ''K'' 10, C ''5'' 5] True = ([C ''A'' 11, C ''K'' 10, C ''5'' 5], 16)"
    by (simp add: dealerDraw_def dealerLoop.simps eval_hand)
  show ?thesis
    by (simp add: d resolveBlackjackRound_def treatAsInitial_def isBlackjack_def normalResolution_def
        settleLoop.simps eval_hand)
qed

section \<open>Strategy engine and recorder\<close>

declare showNat.simps [simp del]

lemmas eval_strategy = getOptimalAction_def isPair_def pairStrategy_def softStrategy_def
  hardStrategy_def calculateHandValue_def isSoftHand_def demote.simps

lemmas eval_key = scenarioKey_def showInt_def showNat.simps

lemma softStrategy_table: "softStrategy t d cd = softTable t d cd"
  by (auto simp: softStrategy_def softTable_def)

lemma recordDecision_counts:
  assumes "h \<noteq> []"
  shows "map_option count (scenarioStats (recordDecision h (Some d) a st) (scenarioKey h d)) =
           Some (case scenarioStats st (scenarioKey h d) of None \<Rightarrow> 1 | Some x \<Rightarrow> count x + 1)"
    and "map_option (\<lambda>x. actions x a) (scenarioStats (recordDecision h (Some d) a st) (scenarioKey h d)) =
           Some (Some (case scenarioStats st (scenarioKey h d) of None \<Rightarrow> 1
                       | Some x \<Rightarrow> (case actions x a of None \<Rightarrow> 1 | Some n \<Rightarrow> n + 1)))"
    and "map_option correctDecisions (scenarioStats (recordDecision h (Some d) a st) (scenarioKey h d)) =
           Some ((case scenarioStats st (scenarioKey h d) of None \<Rightarrow> 0 | Some x \<Rightarrow> correctDecisions x)
                 + (if a = getOptimalAction h (Some d) True True True then 1 else 0))"
    and "k \<noteq> scenarioKey h d \<Longrightarrow> scenarioStats (recordDecision h (Some d) a st) k = scenarioStats st k"
  using assms by (auto simp: recordDecision_def Let_def split: option.splits)

lemma scenarioKey_shape:
  assumes "isPair h1 = isPair h2" and "isPair h1 \<Longrightarrow> rank (h1 ! 0) = rank (h2 ! 0)"
    and "isSoftHand h1 = isSoftHand h2" and "calculateHandValue h1 = calculateHandValue h2"
    and "rank d1 = rank d2"
  shows "scenarioKey h1 d1 = scenarioKey h2 d2"
  using assms by (auto simp: scenarioKey_def)

text \<open>
  Claim C6, as the claim states it: a soft 17 is doubled against a dealer 3 to 6. With
  \<open>canDouble\<close> false the engine hits a soft 17 against a dealer 4.
\<close>

theorem soft_17_needs_double:
  "softSpec [C ''A'' 11, C ''6'' 6] \<and> calculateHandValue [C ''A'' 11, C ''6'' 6] = 17
   \<and> \<not> isPair [C ''A'' 11, C ''6'' 6]
   \<and> getOptimalAction [C ''A'' 11, C ''6'' 6] (Some (C ''4'' 4)) False True True = Hit"
  by (simp add: softSpec_def aceCount_def nominalTotal_def isAce_def eval_strategy)

text \<open>
  Claim C6, amended. For a soft hand none of whose Aces has been demoted (an Ace is held
  and the nominal total is at most 21) that does not take the pair-splitting branch,
  the engine follows the soft table: stand on 19 or more; on 18 double against 3 to 6
  when \<open>canDouble\<close> holds, hit against 9 or more, else stand; when \<open>canDouble\<close> holds
  double 17 against 3 to 6, 15 and 16 against 4 to 6, 13 and 14 against 5 and 6;
  otherwise hit.
\<close>

theorem soft_hand_strategy:
  assumes "softSpec h" and "nominalTotal h \<le> 21"
    and "\<not> (isPair h \<and> splitAllowed \<and> pairStrategy (rank (h ! 0)) (cval d) = Some Split)"
  shows "getOptimalAction h (Some d) canDouble splitAllowed canSurrender =
           softTable (calculateHandValue h) (cval d) canDouble"
proof -
  from assms(1) have a: "0 < aceCount h"
    by (simp add: softSpec_def)
  then have ne: "h \<noteq> []"
    by (auto simp: aceCount_def)
  from a assms(2) have soft: "isSoftHand h"
    by (simp add: isSoftHand_iff)
  have p: "(if isPair h \<and> splitAllowed then pairStrategy (rank (h ! 0)) (cval d) else None) = None"
    using assms(3) by (auto simp: pairStrategy_def)
  have dv: "(if cval d = 11 then (if rank d = ''A'' then 11 else cval d) else cval d) = cval d"
    by simp
  show ?thesis
    by (simp only: getOptimalAction_def option.case ne if_False Let_def dv p soft if_True
        softStrategy_table)
qed

theorem soft_hand_strategy_witness:
  "softSpec [C ''A'' 11, C ''6'' 6] \<and> nominalTotal [C ''A'' 11, C ''6'' 6] \<le> 21
   \<and> \<not> (isPair [C ''A'' 11, C ''6'' 6] \<and> True
         \<and> pairStrategy (rank ([C ''A'' 11, C ''6'' 6] ! 0)) (cval (C ''4'' 4)) = Some Split)
   \<and> getOptimalAction [C ''A'' 11, C ''6'' 6] (Some (C ''4'' 4)) True True True = Double
   \<and> getOptimalAction [C ''A'' 11, C ''6'' 6] (Some (C ''4'' 4)) False True True = Hit
   \<and> getOptimalAction [C ''A'' 11, C ''7'' 7] (Some (C ''9'' 9)) True True True = Hit"
proof -
  have s: "softSpec [C ''A'' 11, C ''6'' 6]" "softSpec [C ''A'' 11, C ''7'' 7]"
    by (simp_all add: softSpec_def aceCount_def nominalTotal_def isAce_def)
  have n: "nominalTotal [C ''A'' 11, C ''6'' 6] \<le> 21" "nominalTotal [C ''A'' 11, C ''7'' 7] \<le> 21"
    by (simp_all add: nominalTotal_def)
  have p: "\<not> (isPair [C ''A'' 11, C ''6'' 6] \<and> True
         \<and> pairStrategy (rank ([C ''A'' 11, C ''6'' 6] ! 0)) (cval (C ''4'' 4)) = Some Split)"
    "\<not> (isPair [C ''A'' 11, C ''7'' 7] \<and> True
         \<and> pairStrategy (rank ([C ''A'' 11, C ''7'' 7] ! 0)) (cval (C ''9'' 9)) = Some Split)"
    by (simp_all add: isPair_def)
  have v: "calculateHandValue [C ''A'' 11, C ''6'' 6] = 17"
    "calculateHandValue [C ''A'' 11, C ''7'' 7] = 18"
    by (simp_all add: calculateHandValue_def demote.simps)
  show ?thesis
    using s n p
      soft_hand_strategy [OF s(1) n(1) p(1), of True True]
      soft_hand_strategy [OF s(1) n(1) p(1), of False True]
      soft_hand_strategy [OF s(2) n(2) p(2), of True True]
    by (simp add: v softTable_def)
qed

text \<open>
  Claim C7. A recorded decision is judged and keyed on the hand as it was when the
  decision was taken, for a split the full pair. \<open>recordDecision\<close> does so for the hand
  it is given (\<open>recordDecision_counts\<close>), but \<open>split\<close> gives it the one-card hand
  \<^verbatim>\<open>[currentHand[0]]\<close>: splitting eights against a 7, where the engine says split, is
  recorded under the key of a hard 8 with the optimal action hit, and counted as wrong.
\<close>

theorem split_recorded_on_one_card:
  "getOptimalAction [C ''8'' 8, C ''8'' 8] (Some (C ''7'' 7)) True True True = Split
   \<and> scenarioKey [C ''8'' 8, C ''8'' 8] (C ''7'' 7) = ''pair_8_vs_7''
   \<and> tPlayerHands (split eights) = [[C ''8'' 8, C ''3'' 3], [C ''8'' 8]]
   \<and> map dPlayerHand (decisionHistory (recorded (split eights))) = [[C ''8'' 8]]
   \<and> map dScenarioKey (decisionHistory (recorded (split eights))) = [''hard_8_vs_7'']
   \<and> map dOptimalAction (decisionHistory (recorded (split eights))) = [Hit]
   \<and> map isOptimal (decisionHistory (recorded (split eights))) = [False]
   \<and> scenarioStats (recorded (split eights)) ''pair_8_vs_7'' = None
   \<and> map_option count (scenarioStats (recorded (split eights)) ''hard_8_vs_7'') = Some 1
   \<and> map_option correctDecisions (scenarioStats (recorded (split eights)) ''hard_8_vs_7'') = Some 0"
  by (simp add: split_def eights_def canSplit_def fillAt_def recordDecision_def Let_def
      eval_strategy eval_key)

theorem split_recorded_on_one_card_witness:
  "canSplit (tPlayerHands eights ! currentHandIndex eights)
   \<and> currentBet eights \<le> tBankroll eights
   \<and> map dPlayerHand (decisionHistory (recorded (split eights))) = [[C ''8'' 8]]
   \<and> map isOptimal (decisionHistory (recorded (split eights))) = [False]"
  using split_recorded_on_one_card by (simp add: eights_def canSplit_def)

text \<open>
  Claim C8. Two hands of the same shape and total against the same dealer rank get the
  same scenario key. The hard 16 hands 10, 6 and 7, 9 do; the soft 18 hands A, 7 and
  A, A, 6 do not, since the recorder takes its shape from \<open>isSoftHand\<close>.
\<close>

theorem soft_18_keys_differ:
  "isSoft [C ''A'' 11, C ''7'' 7] \<and> isSoft [C ''A'' 11, C ''A'' 11, C ''6'' 6]
   \<and> \<not> isPair [C ''A'' 11, C ''7'' 7] \<and> \<not> isPair [C ''A'' 11, C ''A'' 11, C ''6'' 6]
   \<and> calculateHandValue [C ''A'' 11, C ''7'' 7] = 18
   \<and> calculateHandValue [C ''A'' 11, C ''A'' 11, C ''6'' 6] = 18
   \<and> acesAtEleven [C ''A'' 11, C ''7'' 7] = 1
   \<and> acesAtEleven [C ''A'' 11, C ''A'' 11, C ''6'' 6] = 1
   \<and> scenarioKey [C ''A'' 11, C ''7'' 7] (C ''10'' 10) = ''soft_18_vs_10''
   \<and> scenarioKey [C ''A'' 11, C ''A'' 11, C ''6'' 6] (C ''10'' 10) = ''hard_18_vs_10''
   \<and> scenarioKey [C ''10'' 10, C ''6'' 6] (C ''10'' 10) = scenarioKey [C ''7'' 7, C ''9'' 9] (C ''10'' 10)"
  by (simp add: isSoft_def acesAtEleven_def eval_strategy eval_key)

text \<open>
  Claim C9. Missing input raises nothing: the empty hand has total 0 and is neither
  soft nor a pair nor a natural, the strategy engine answers hit for an empty hand or
  a null dealer up-card, the recorder leaves its state as it is, and a round without
  hands or cards is resolved on totals of 0. Every indexed read of the source is under
  a length test, so the functions above have no error branch.
\<close>

theorem empty_inputs_default:
  "calculateHandValue [] = 0 \<and> calcValue [] = 0
   \<and> \<not> isSoftHand [] \<and> \<not> isSoft []
   \<and> \<not> isPair [] \<and> \<not> canSplit []
   \<and> \<not> isBlackjack []
   \<and> getOptimalAction [] dealerUpCard canDouble splitAllowed canSurrender = Hit
   \<and> getOptimalAction playerHand None canDouble splitAllowed canSurrender = Hit
   \<and> recordDecision [] dealerUpCard act st = st
   \<and> recordDecision playerHand None act st = st
   \<and> resolveBlackjackRound \<lparr>playerHands = [], dealerHand = [], bankroll = b, handBets = [],
        defaultBet = dflt, dealerHitsSoft17 = h17, considerNaturalBlackjack = cnb\<rparr>
       = \<lparr>rBankroll = max 0 b, outcomes = [], dealerFinalHand = [], dealerValue = 0\<rparr>
   \<and> resolveBlackjackRound \<lparr>playerHands = [[]], dealerHand = [], bankroll = b, handBets = [],
        defaultBet = dflt, dealerHitsSoft17 = h17, considerNaturalBlackjack = cnb\<rparr>
       = \<lparr>rBankroll = max 0 (b + dflt),
          outcomes = [\<lparr>result = Push, bet = dflt, playerValue = 0\<rparr>],
          dealerFinalHand = [], dealerValue = 0\<rparr>"
  by (simp add: calculateHandValue_def calcValue_def demote.simps isSoftHand_def isSoft_def
      isPair_def canSplit_def isBlackjack_def getOptimalAction_def recordDecision_def
      resolveBlackjackRound_def dealerDraw_def dealerLoop.simps treatAsInitial_def
      normalResolution_def settleLoop.simps betAt_def
      split: option.split)

section \<open>What the resolver writes\<close>

declare dealerLoopS.simps [simp del] settleLoopS.simps [simp del]

lemma length_pushOutcome [simp]: "length (pushOutcome st a x) = length st"
  by (simp add: pushOutcome_def split: obj.splits)

lemma take_pushOutcome: "n \<le> a \<Longrightarrow> take n (pushOutcome st a x) = take n st"
  by (simp add: pushOutcome_def split: obj.splits)

lemma dealerLoopS_go:
  "dealerHits h17 (cardsAt st shown) dVal \<Longrightarrow> i < length (cardsAt st dh) \<Longrightarrow>
   dealerLoopS st dh h17 i shown dVal =
   dealerLoopS (st @ [Cards (cardsAt st shown @ [cardsAt st dh ! i])]) dh h17
     (i + 1) (length st) (calcValue (cardsAt st shown @ [cardsAt st dh ! i]))"
  by (subst dealerLoopS.simps) (auto simp: dealerHits_def)

lemma dealerLoopS_stop:
  "\<not> (dealerHits h17 (cardsAt st shown) dVal \<and> i < length (cardsAt st dh)) \<Longrightarrow>
   dealerLoopS st dh h17 i shown dVal = (st, shown, dVal)"
  by (subst dealerLoopS.simps) (auto simp: dealerHits_def)

lemma cardsAt_append:
  "a < length st \<Longrightarrow> cardsAt (st @ ext) a = cardsAt st a"
  by (simp add: cardsAt_def nth_append)

lemma cardsAt_nonempty: "i < length (cardsAt st a) \<Longrightarrow> a < length st"
  by (auto simp: cardsAt_def split: if_splits)

lemma dealerLoopS_frame:
  "dealerLoopS st dh h17 i shown dVal = (st', shown', dVal') \<Longrightarrow>
   n \<le> length st \<Longrightarrow> n \<le> shown \<Longrightarrow>
   take n st' = take n st \<and> length st \<le> length st' \<and> n \<le> shown'"
proof (induction "length (cardsAt st dh) - i" arbitrary: st i shown dVal)
  case 0
  then have "\<not> i < length (cardsAt st dh)" by simp
  with 0 show ?case by (simp add: dealerLoopS_stop)
next
  case (Suc k)
  let ?st = "st @ [Cards (cardsAt st shown @ [cardsAt st dh ! i])]"
  from Suc.hyps(2) have lt: "i < length (cardsAt st dh)" by arith
  then have same: "cardsAt ?st dh = cardsAt st dh"
    by (simp add: cardsAt_append cardsAt_nonempty)
  show ?case
  proof (cases "dealerHits h17 (cardsAt st shown) dVal")
    case False
    with Suc.prems show ?thesis by (simp add: dealerLoopS_stop)
  next
    case True
    with lt Suc.prems(1) have run: "dealerLoopS ?st dh h17 (i + 1) (length st)
        (calcValue (cardsAt st shown @ [cardsAt st dh ! i])) = (st', shown', dVal')"
      by (simp add: dealerLoopS_go)
    have k: "k = length (cardsAt ?st dh) - (i + 1)"
      using Suc.hyps(2) same by simp
    from Suc.hyps(1)[OF k run] Suc.prems(2) show ?thesis
      by simp
  qed
qed

lemma settleLoopS_go:
  "i < length (handsAt st ph) \<Longrightarrow>
   settleLoopS st ph hb dflt dVal i outs tp =
   settleLoopS (pushOutcome st outs (fst (settleStep st ph hb dflt dVal i))) ph hb dflt dVal
     (i + 1) outs (tp + snd (settleStep st ph hb dflt dVal i))"
  by (subst settleLoopS.simps) (simp add: Let_def settleStep_def settleSpec_def mult.commute)

lemma settleLoopS_stop:
  "\<not> i < length (handsAt st ph) \<Longrightarrow> settleLoopS st ph hb dflt dVal i outs tp = (st, tp)"
  by (subst settleLoopS.simps) simp

lemma handsAt_pushOutcome [simp]: "handsAt (pushOutcome st a x) b = handsAt st b"
  by (auto simp: handsAt_def pushOutcome_def nth_list_update split: obj.splits if_splits)

lemma cardsAt_pushOutcome [simp]: "cardsAt (pushOutcome st a x) b = cardsAt st b"
  by (auto simp: cardsAt_def pushOutcome_def nth_list_update split: obj.splits if_splits)

lemma betsIn_pushOutcome [simp]: "betsIn (pushOutcome st a x) b = betsIn st b"
  by (auto simp: betsIn_def pushOutcome_def nth_list_update split: obj.splits if_splits)

lemma settleLoopS_frame:
  "settleLoopS st ph hb dflt dVal i outs tp = (st', tp') \<Longrightarrow> n \<le> outs \<Longrightarrow>
   take n st' = take n st \<and> length st' = length st"
proof (induction "length (handsAt st ph) - i" arbitrary: st i tp)
  case 0
  then show ?case by (simp add: settleLoopS_stop)
next
  case (Suc k)
  let ?st = "pushOutcome st outs (fst (settleStep st ph hb dflt dVal i))"
  from Suc.hyps(2) have lt: "i < length (handsAt st ph)" by arith
  with Suc.prems(1) have run: "settleLoopS ?st ph hb dflt dVal (i + 1) outs
      (tp + snd (settleStep st ph hb dflt dVal i)) = (st', tp')"
    by (simp add: settleLoopS_go)
  have k: "k = length (handsAt ?st ph) - (i + 1)"
    using Suc.hyps(2) by simp
  from Suc.hyps(1)[OF k run Suc.prems(2)] Suc.prems(2) show ?case
    by (simp add: take_pushOutcome)
qed

lemma same_prefix_nth:
  "take n st' = take n st \<Longrightarrow> a < n \<Longrightarrow> st' ! a = st ! a"
  by (metis nth_take)

lemma reads_prefix:
  assumes "take n st' = take n st" "a < n" "n \<le> length st" "n \<le> length st'"
  shows "cardsAt st' a = cardsAt st a" "handsAt st' a = handsAt st a" "betsIn st' a = betsIn st a"
  using assms same_prefix_nth[OF assms(1,2)]
  by (simp_all add: cardsAt_def handsAt_def betsIn_def)

lemma dealerLoopS_refines:
  "dealerLoopS st dh h17 i shown dVal = (st', shown', dVal') \<Longrightarrow>
   dh < length st \<Longrightarrow> shown < length st \<Longrightarrow>
   shown' < length st' \<and>
   dealerLoop (cardsAt st dh) h17 i (cardsAt st shown) dVal = (cardsAt st' shown', dVal')"
proof (induction "length (cardsAt st dh) - i" arbitrary: st i shown dVal)
  case 0
  then have "\<not> i < length (cardsAt st dh)" by simp
  with 0 show ?case by (simp add: dealerLoopS_stop dealerLoop_stop)
next
  case (Suc k)
  let ?new = "cardsAt st shown @ [cardsAt st dh ! i]"
  let ?st = "st @ [Cards ?new]"
  from Suc.hyps(2) have lt: "i < length (cardsAt st dh)" by arith
  have same: "cardsAt ?st dh = cardsAt st dh"
    using Suc.prems(2) by (simp add: cardsAt_append)
  have new: "cardsAt ?st (length st) = ?new"
    by (simp add: cardsAt_def)
  show ?case
  proof (cases "dealerHits h17 (cardsAt st shown) dVal")
    case False
    with Suc.prems show ?thesis by (simp add: dealerLoopS_stop dealerLoop_stop)
  next
    case True
    with lt Suc.prems(1) have run: "dealerLoopS ?st dh h17 (i + 1) (length st) (calcValue ?new)
        = (st', shown', dVal')"
      by (simp add: dealerLoopS_go)
    have k: "k = length (cardsAt ?st dh) - (i + 1)"
      using Suc.hyps(2) same by simp
    from Suc.hyps(1)[OF k run] Suc.prems(2) True lt show ?thesis
      by (simp add: same new dealerLoop_go)
  qed
qed

lemma outcomesAt_pushOutcome:
  "a < length st \<Longrightarrow> st ! a = Outcomes os \<Longrightarrow>
   pushOutcome st a x ! a = Outcomes (os @ [x])"
  by (simp add: pushOutcome_def)

lemma settleStep_pushOutcome [simp]:
  "settleStep (pushOutcome st a x) ph hb dflt dVal j = settleStep st ph hb dflt dVal j"
  by (simp add: settleStep_def)

lemma settleLoopS_eq:
  "settleLoopS st ph hb dflt dVal i outs tp = (st', tp') \<Longrightarrow>
   outs < length st \<Longrightarrow> st ! outs = Outcomes os \<Longrightarrow>
   st' ! outs = Outcomes (os @ map (\<lambda>j. fst (settleStep st ph hb dflt dVal j)) [i..<length (handsAt st ph)])
   \<and> tp' = tp + (\<Sum>j\<leftarrow>[i..<length (handsAt st ph)]. snd (settleStep st ph hb dflt dVal j))"
proof (induction "length (handsAt st ph) - i" arbitrary: st i tp os)
  case 0
  then show ?case by (simp add: settleLoopS_stop)
next
  case (Suc k)
  let ?x = "fst (settleStep st ph hb dflt dVal i)"
  let ?st = "pushOutcome st outs ?x"
  from Suc.hyps(2) have lt: "i < length (handsAt st ph)" by arith
  with Suc.prems(1) have run: "settleLoopS ?st ph hb dflt dVal (i + 1) outs
      (tp + snd (settleStep st ph hb dflt dVal i)) = (st', tp')"
    by (simp add: settleLoopS_go)
  have k: "k = length (handsAt ?st ph) - (i + 1)"
    using Suc.hyps(2) by simp
  have o: "outs < length ?st" "?st ! outs = Outcomes (os @ [?x])"
    using Suc.prems(2,3) by (simp_all add: outcomesAt_pushOutcome)
  from Suc.hyps(1)[OF k run o] lt show ?case
    by (simp add: upt_conv_Cons add.assoc)
qed

lemma roundOf_sel:
  "playerHands (roundOf st ph dh bank hb dflt h17 cnb) = map (cardsAt st) (handsAt st ph)"
  "dealerHand (roundOf st ph dh bank hb dflt h17 cnb) = cardsAt st dh"
  "bankroll (roundOf st ph dh bank hb dflt h17 cnb) = bank"
  "handBets (roundOf st ph dh bank hb dflt h17 cnb) = betsIn st hb"
  "defaultBet (roundOf st ph dh bank hb dflt h17 cnb) = dflt"
  "dealerHitsSoft17 (roundOf st ph dh bank hb dflt h17 cnb) = h17"
  "considerNaturalBlackjack (roundOf st ph dh bank hb dflt h17 cnb) = cnb"
  by (simp_all add: roundOf_def)

lemma outcomesAt_fresh:
  "outcomesAt (pushOutcome (st @ [Outcomes []]) (length st) x) (length st) = [x]"
  by (simp add: outcomesAt_def pushOutcome_def)

lemma resolveS_refines:
  assumes live: "liveArgs st ph dh hb"
  shows "resultOf (resolveS st ph dh bank hb dflt h17 cnb) =
           resolveBlackjackRound (roundOf st ph dh bank hb dflt h17 cnb)"
proof -
  let ?p = "roundOf st ph dh bank hb dflt h17 cnb"
  let ?dHand = "cardsAt st dh"
  let ?st1 = "st @ [Cards (take (min 2 (length ?dHand)) ?dHand)]"
  from live have lv: "ph < length st" "dh < length st" "hb < length st"
      and refs: "\<And>a. a \<in> set (handsAt st ph) \<Longrightarrow> a < length st"
    by (auto simp: liveArgs_def list_all_iff)
  obtain st2 shown dVal where
    d: "dealerLoopS ?st1 dh h17 2 (length st) (calcValue ?dHand) = (st2, shown, dVal)"
    by (cases "dealerLoopS ?st1 dh h17 2 (length st) (calcValue ?dHand)") auto
  from dealerLoopS_frame[OF d, of "length st"]
  have f2: "take (length st) st2 = st" "length st < length st2"
    by auto
  have r1: "cardsAt ?st1 dh = ?dHand" "cardsAt ?st1 (length st) = take (min 2 (length ?dHand)) ?dHand"
    using lv(2) by (simp_all add: cardsAt_def nth_append)
  from dealerLoopS_refines[OF d] lv(2)
  have sh: "shown < length st2"
    and draw: "dealerDraw ?dHand h17 = (cardsAt st2 shown, dVal)"
    by (simp_all add: r1 dealerDraw_def)
  let ?st3 = "st2 @ [Outcomes []]"
  have f3: "take (length st) ?st3 = take (length st) st"
    using f2 by simp
  have rd3: "cardsAt ?st3 a = cardsAt st a" "handsAt ?st3 a = handsAt st a"
      "betsIn ?st3 a = betsIn st a" if "a < length st" for a
    using reads_prefix[OF f3 that] f2(2) by simp_all
  have shown3: "cardsAt ?st3 shown = cardsAt st2 shown"
    using sh by (simp add: cardsAt_append)
  have hands3: "map (cardsAt ?st3) (handsAt st ph) = map (cardsAt st) (handsAt st ph)"
    using refs by (simp add: rd3(1))
  have init: "(case handsAt ?st3 ph of [a] \<Rightarrow> length (cardsAt ?st3 a) = 2 | _ \<Rightarrow> False) =
              (case playerHands ?p of [h] \<Rightarrow> length h = 2 | _ \<Rightarrow> False)"
    using refs by (auto simp: rd3 lv roundOf_def split: list.splits)
  have hd3: "handsAt st ph \<noteq> [] \<Longrightarrow> cardsAt ?st3 (hd (handsAt ?st3 ph)) = hd (playerHands ?p)"
    using refs[of "hd (handsAt st ph)"] by (simp add: rd3 lv roundOf_def hd_map)
  have ne: "treatAsInitial ?p \<Longrightarrow> handsAt st ph \<noteq> []"
    by (auto simp: treatAsInitial_def roundOf_def)
  obtain st4 tp where s: "settleLoopS ?st3 ph hb dflt dVal 0 (length st2) 0 = (st4, tp)"
    by (cases "settleLoopS ?st3 ph hb dflt dVal 0 (length st2) 0") auto
  from settleLoopS_frame[OF s, of "length st2"]
  have f4: "take (length st2) st4 = take (length st2) ?st3" "length st4 = length ?st3"
    by simp_all
  have shown4: "cardsAt st4 shown = cardsAt st2 shown"
    using reads_prefix(1)[OF f4(1) sh] f4(2) shown3 by simp
  have step: "settleStep ?st3 ph hb dflt dVal j = (settledHand ?p dVal j, handPayout ?p dVal j)"
    if "j < length (handsAt st ph)" for j
    using that refs[of "handsAt st ph ! j"]
    by (simp add: settleStep_def settledHand_def handPayout_def Let_def rd3 lv roundOf_def)
  from settleLoopS_eq[OF s, of "[]"]
  have "st4 ! length st2 = Outcomes (map (\<lambda>j. fst (settleStep ?st3 ph hb dflt dVal j))
            [0..<length (handsAt st ph)])"
    and "tp = (\<Sum>j\<leftarrow>[0..<length (handsAt st ph)]. snd (settleStep ?st3 ph hb dflt dVal j))"
    by (simp_all add: rd3 lv)
  moreover have "map (\<lambda>j. fst (settleStep ?st3 ph hb dflt dVal j)) [0..<length (handsAt st ph)]
        = map (settledHand ?p dVal) [0..<length (handsAt st ph)]"
    and "map (\<lambda>j. snd (settleStep ?st3 ph hb dflt dVal j)) [0..<length (handsAt st ph)]
        = map (handPayout ?p dVal) [0..<length (handsAt st ph)]"
    by (simp_all add: step)
  ultimately have out4: "outcomesAt st4 (length st2) = map (settledHand ?p dVal) [0..<length (handsAt st ph)]"
    and tp: "tp = (\<Sum>j\<leftarrow>[0..<length (handsAt st ph)]. handPayout ?p dVal j)"
    using f4(2) by (simp_all add: outcomesAt_def)
  have normal: "resultOf (st4, \<lparr>bankrollS = max 0 (bank + tp), outcomesS = length st2,
                    dealerFinalHandS = shown, dealerValueS = dVal\<rparr>) =
                normalResolution ?p (cardsAt st2 shown) dVal"
    by (simp add: resultOf_def normalResolution_eq out4 tp shown4) (simp add: roundOf_def)
  have early: "resultOf (pushOutcome ?st3 (length st2) x, \<lparr>bankrollS = b, outcomesS = length st2,
                    dealerFinalHandS = dh, dealerValueS = dVal\<rparr>) =
               \<lparr>rBankroll = b, outcomes = [x], dealerFinalHand = dealerHand ?p, dealerValue = dVal\<rparr>"
    for x b
    by (simp add: resultOf_def outcomesAt_fresh rd3 lv) (simp add: roundOf_def)
  note sel = roundOf_sel
  define ini where "ini = (cnb \<and> (case handsAt ?st3 ph of
                                      [a] \<Rightarrow> length (cardsAt ?st3 a) = 2 | _ \<Rightarrow> False))"
  define pn where "pn = isBlackjack (cardsAt ?st3 (hd (handsAt ?st3 ph)))"
  define dn where "dn = (cnb \<and> isBlackjack (cardsAt ?st3 shown))"
  define bet0 where "bet0 = betAt (betsIn ?st3 hb) 0 dflt"
  have unfold: "resolveS st ph dh bank hb dflt h17 cnb =
      (if ini then
         (if pn \<and> dn then
            (pushOutcome ?st3 (length st2) \<lparr>result = Push, bet = bet0, playerValue = 21\<rparr>,
             \<lparr>bankrollS = max 0 (bank + bet0), outcomesS = length st2,
              dealerFinalHandS = dh, dealerValueS = dVal\<rparr>)
          else if pn \<and> \<not> dn then
            (pushOutcome ?st3 (length st2) \<lparr>result = Blackjack, bet = bet0, playerValue = 21\<rparr>,
             \<lparr>bankrollS = max 0 (bank + bet0 * 2.5), outcomesS = length st2,
              dealerFinalHandS = dh, dealerValueS = dVal\<rparr>)
          else (st4, \<lparr>bankrollS = max 0 (bank + tp), outcomesS = length st2,
                      dealerFinalHandS = shown, dealerValueS = dVal\<rparr>))
       else (st4, \<lparr>bankrollS = max 0 (bank + tp), outcomesS = length st2,
                   dealerFinalHandS = shown, dealerValueS = dVal\<rparr>))"
    unfolding resolveS_def Let_def d s prod.case ini_def pn_def dn_def bet0_def ..
  have ini: "ini = treatAsInitial ?p"
    by (simp add: ini_def treatAsInitial_def init sel)
  have dn: "dn = (cnb \<and> isBlackjack (cardsAt st2 shown))"
    by (simp add: dn_def shown3)
  have bet0: "bet0 = betAt (handBets ?p) 0 (defaultBet ?p)"
    by (simp add: bet0_def sel rd3 lv)
  have pn: "treatAsInitial ?p \<Longrightarrow> pn = isBlackjack (hd (playerHands ?p))"
    using hd3 ne by (simp add: pn_def)
  show ?thesis
  proof (cases "treatAsInitial ?p")
    case False
    with normal show ?thesis
      by (simp add: unfold ini resolveBlackjackRound_def sel draw)
  next
    case True
    show ?thesis
      using True normal early pn[OF True]
      by (simp add: unfold ini dn bet0 resolveBlackjackRound_def sel draw Let_def)
  qed
qed

text \<open>
  Claim C10. \<^verbatim>\<open>resolveBlackjackRound\<close> mutates none of its arguments: every array
  that is in the store before the call (the \<^verbatim>\<open>playerHands\<close> array, each hand, the
  \<^verbatim>\<open>dealerHand\<close> array, the \<^verbatim>\<open>handBets\<close> array, with the cards they hold) is the
  same after it. The outcomes list is a new array, and the returned final hand of the
  dealer is a new array or, on the early returns, the \<^verbatim>\<open>dealerHand\<close> argument itself.
\<close>

theorem resolveS_frame:
  "take (length st) (fst (resolveS st ph dh bank hb dflt h17 cnb)) = st
   \<and> length st \<le> outcomesS (snd (resolveS st ph dh bank hb dflt h17 cnb))
   \<and> (dealerFinalHandS (snd (resolveS st ph dh bank hb dflt h17 cnb)) = dh
      \<or> length st \<le> dealerFinalHandS (snd (resolveS st ph dh bank hb dflt h17 cnb)))"
proof -
  let ?st1 = "st @ [Cards (take (min 2 (length (cardsAt st dh))) (cardsAt st dh))]"
  obtain st2 shown dVal where
    d: "dealerLoopS ?st1 dh h17 2 (length st) (calcValue (cardsAt st dh)) = (st2, shown, dVal)"
    by (cases "dealerLoopS ?st1 dh h17 2 (length st) (calcValue (cardsAt st dh))") auto
  from dealerLoopS_frame[OF d, of "length st"]
  have f2: "take (length st) st2 = st" "length st < length st2" "length st \<le> shown"
    by auto
  let ?st3 = "st2 @ [Outcomes []]"
  obtain st4 tp where s: "settleLoopS ?st3 ph hb dflt dVal 0 (length st2) 0 = (st4, tp)"
    by (cases "settleLoopS ?st3 ph hb dflt dVal 0 (length st2) 0") auto
  from settleLoopS_frame[OF s, of "length st"] f2
  have f4: "take (length st) st4 = st"
    by simp
  have f3: "take (length st) (pushOutcome ?st3 (length st2) x) = st" for x
    using f2 by (simp add: take_pushOutcome)
  show ?thesis
    using f2 f3 f4 by (simp add: resolveS_def Let_def d s)
qed

theorem resolveS_frame_witness:
  "fst (resolveS sampleStore 0 2 975 3 25 True True) =
     sampleStore @ [Cards [C ''6'' 6, C ''7'' 7],
                    Outcomes [\<lparr>result = Bust, bet = 25, playerValue = 24\<rparr>]]
   \<and> snd (resolveS sampleStore 0 2 975 3 25 True True) =
     \<lparr>bankrollS = 975, outcomesS = 5, dealerFinalHandS = 4, dealerValueS = 13\<rparr>
   \<and> take 4 (fst (resolveS sampleStore 0 2 975 3 25 True True)) = sampleStore"
  using resolveS_frame [of sampleStore 0 2 975 3 25 True True]
  by (simp add: resolveS_def sampleStore_def cardsAt_def handsAt_def betsIn_def pushOutcome_def
      dealerLoopS.simps settleLoopS.simps isBlackjack_def eval_hand Let_def)

end
